theory Spec2Isabelle
  imports Main
begin

section \<open>JavaScript strings and numbers\<close>

text \<open>
  A JavaScript string is a sequence of UTF-16 code units; the log-line grammar of
  \<^verbatim>\<open>TimerManager.parseLogsFromMarkdown\<close> has no \<^verbatim>\<open>u\<close> flag and so works on code units.
  Timestamps and settings are JavaScript numbers holding integers (\<^verbatim>\<open>Date.now()\<close> is an
  integer count of milliseconds, far below 2 to the power 53, where the arithmetic of doubles
  on integers is exact); they are modelled as \<^typ>\<open>int\<close>. The duration of a session can come
  from a minute count of any length written in a document, so it is a double (\<open>jsnum\<close> below).
  The source file stores the non-ASCII characters of the grammar re-encoded; they are the
  tomato emoji U+1F345 (code units D83C DF45), the stopwatch U+23F1, the en dash U+2013 and
  the em dash U+2014, as the example line in \<^verbatim>\<open>ItemTimeLog.tsx\<close> shows.
\<close>

type_synonym jsstring = "nat list"

definition asc :: "string \<Rightarrow> jsstring" where
  "asc s = map of_char s"

definition tomato :: jsstring where
  "tomato = [55356, 57157]"

definition stopwatch_sign :: jsstring where
  "stopwatch_sign = [9201]"

definition en_dash :: nat where
  "en_dash = 8211"

definition em_dash :: nat where
  "em_dash = 8212"

definition hyphen :: nat where
  "hyphen = 45"

text \<open>The class \<^verbatim>\<open>\s\<close> of ECMAScript: white space and line terminators.\<close>

definition isWs :: "nat \<Rightarrow> bool" where
  "isWs c \<longleftrightarrow> c \<in> {9, 10, 11, 12, 13, 32, 160, 5760, 8232, 8233, 8239, 8287, 12288, 65279}
     \<or> (8192 \<le> c \<and> c \<le> 8202)"

text \<open>The class \<^verbatim>\<open>\d\<close>: the ten ASCII digits.\<close>

definition isDigit :: "nat \<Rightarrow> bool" where
  "isDigit c \<longleftrightarrow> 48 \<le> c \<and> c \<le> 57"

text \<open>\<^verbatim>\<open>String.prototype.trim\<close>.\<close>

definition trim :: "jsstring \<Rightarrow> jsstring" where
  "trim s = rev (dropWhile isWs (rev (dropWhile isWs s)))"

text \<open>\<^verbatim>\<open>s.split(/\n/)\<close>: the pieces between line feeds; an empty string gives one empty piece.\<close>

fun split_lines :: "jsstring \<Rightarrow> jsstring list" where
  "split_lines [] = [[]]"
| "split_lines (c # cs) =
     (if c = 10 then [] # split_lines cs
      else (case split_lines cs of [] \<Rightarrow> [[c]] | l # ls \<Rightarrow> (c # l) # ls))"

text \<open>\<^verbatim>\<open>s.includes(p)\<close>.\<close>

fun js_includes :: "jsstring \<Rightarrow> jsstring \<Rightarrow> bool" where
  "js_includes [] p = (p = [])"
| "js_includes (c # cs) p = (take (length p) (c # cs) = p \<or> js_includes cs p)"

text \<open>Decimal digits of a natural number, as \<^verbatim>\<open>String(n)\<close> writes them.\<close>

fun dec :: "nat \<Rightarrow> jsstring" where
  "dec n = (if n < 10 then [48 + n] else dec (n div 10) @ [48 + n mod 10])"

declare dec.simps [simp del]

text \<open>\<^verbatim>\<open>String(n)\<close> for an integer \<open>n\<close>.\<close>

definition num_to_string :: "int \<Rightarrow> jsstring" where
  "num_to_string n = (if n < 0 then asc ''-'' @ dec (nat (- n)) else dec (nat n))"

text \<open>
  The exact value of a string of decimal digits. moment's \<^verbatim>\<open>toInt\<close> reads the two and four
  digits of a date or time with it. It is only applied to strings the grammar matched with
  \<^verbatim>\<open>\d\<close>.
\<close>

definition digits_value :: "jsstring \<Rightarrow> int" where
  "digits_value s = foldl (\<lambda>a c. 10 * a + (int c - 48)) 0 s"

text \<open>
  A JavaScript number that holds an integer, or is one of the two infinities or NaN. Every
  finite double from 2 to the power 53 on is an integer, so the doubles that sums and
  products of integers give are all of this kind.
\<close>

datatype jsnum = Num int | PosInf | NegInf | NaN

text \<open>The number of binary digits of a natural number.\<close>

fun bit_length :: "nat \<Rightarrow> nat" where
  "bit_length n = (if n = 0 then 0 else Suc (bit_length (n div 2)))"

declare bit_length.simps [simp del]

text \<open>Doubles end below 2 to the power 1024.\<close>

definition finite_or_inf :: "int \<Rightarrow> jsnum" where
  "finite_or_inf v = (if v < 2 ^ 1024 then Num v else PosInf)"

text \<open>
  The multiple of \<open>u\<close> nearest to \<open>n\<close>, for \<open>n\<close> above 0 and \<open>u\<close> a power of 2 from 2 on:
  a tie goes to the even multiple.
\<close>

definition round_at :: "int \<Rightarrow> int \<Rightarrow> jsnum" where
  "round_at u n =
     (if 2 * (n mod u) > u \<or> (2 * (n mod u) = u \<and> odd (n div u))
      then finite_or_inf ((n div u + 1) * u)
      else finite_or_inf (n div u * u))"

text \<open>
  The double nearest to an integer (round to nearest, ties to even, 53 binary digits of
  precision): what a sum or product of doubles holding integers gives for the exact result
  \<open>n\<close>. Below 2 to the power 53 every integer is a double.
\<close>

definition js_neg :: "jsnum \<Rightarrow> jsnum" where
  "js_neg x = (case x of Num a \<Rightarrow> Num (- a) | PosInf \<Rightarrow> NegInf | NegInf \<Rightarrow> PosInf | NaN \<Rightarrow> NaN)"

definition to_double :: "int \<Rightarrow> jsnum" where
  "to_double n =
     (if \<bar>n\<bar> < 9007199254740992 then Num n
      else if 0 < n then round_at (2 ^ (bit_length (nat n) - 53)) n
      else js_neg (round_at (2 ^ (bit_length (nat (- n)) - 53)) (- n)))"

text \<open>
  \<^verbatim>\<open>parseInt(s, 10)\<close> for a string of decimal digits: the double nearest to its value. (For
  more than 20 significant digits ECMAScript lets an implementation read the digits after
  the 20th as 0; the model reads them all.)
\<close>

definition parseInt10 :: "jsstring \<Rightarrow> jsnum" where
  "parseInt10 s = to_double (digits_value s)"

text \<open>\<^verbatim>\<open>x * k\<close> for an integer \<open>k\<close> above 0, \<^verbatim>\<open>x + y\<close> and \<^verbatim>\<open>x > 0\<close> on such numbers.\<close>

definition js_times :: "jsnum \<Rightarrow> int \<Rightarrow> jsnum" where
  "js_times x k = (case x of Num a \<Rightarrow> to_double (a * k) | PosInf \<Rightarrow> PosInf | NegInf \<Rightarrow> NegInf
                   | NaN \<Rightarrow> NaN)"

fun js_plus :: "jsnum \<Rightarrow> jsnum \<Rightarrow> jsnum" where
  "js_plus (Num a) (Num b) = to_double (a + b)"
| "js_plus NaN y = NaN"
| "js_plus x NaN = NaN"
| "js_plus PosInf NegInf = NaN"
| "js_plus NegInf PosInf = NaN"
| "js_plus PosInf y = PosInf"
| "js_plus x PosInf = PosInf"
| "js_plus NegInf y = NegInf"
| "js_plus x NegInf = NegInf"

definition js_positive :: "jsnum \<Rightarrow> bool" where
  "js_positive x = (case x of Num a \<Rightarrow> a > 0 | PosInf \<Rightarrow> True | NegInf \<Rightarrow> False | NaN \<Rightarrow> False)"

section \<open>Local time: the moment library\<close>

text \<open>
  \<^verbatim>\<open>moment\<close> is a library the plugin imports from its host. It is modelled on the
  proleptic Gregorian calendar with a local time that is a fixed number of milliseconds
  ahead of UTC (the parameter \<open>off\<close>); daylight-saving changes are outside the model.
\<close>

definition msPerDay :: int where
  "msPerDay = 86400000"

text \<open>
  Days since 1970-01-01 to year, month (1 to 12) and day of the month. Days are counted
  from 0000-03-01 in eras of 400 years (146097 days); an era splits into centuries of 36524
  days (the fourth has one more), a century into cycles of four years (1461 days), a cycle
  into years of 365 days (the fourth has one more), each year starting on 1 March.
\<close>

definition civil_of_doy :: "int \<Rightarrow> int \<Rightarrow> int \<times> int \<times> int" where
  "civil_of_doy y0 doy =
     (if (5 * doy + 2) div 153 < 10
      then (y0, (5 * doy + 2) div 153 + 3, doy - (153 * ((5 * doy + 2) div 153) + 2) div 5 + 1)
      else (y0 + 1, (5 * doy + 2) div 153 - 9,
            doy - (153 * ((5 * doy + 2) div 153) + 2) div 5 + 1))"

definition civil_of_doq :: "int \<Rightarrow> int \<Rightarrow> int \<times> int \<times> int" where
  "civil_of_doq y0 doq =
     civil_of_doy (y0 + min (doq div 365) 3) (doq - min (doq div 365) 3 * 365)"

definition civil_of_doc :: "int \<Rightarrow> int \<Rightarrow> int \<times> int \<times> int" where
  "civil_of_doc y0 doc = civil_of_doq (y0 + 4 * (doc div 1461)) (doc mod 1461)"

definition civil_of_doe :: "int \<Rightarrow> int \<Rightarrow> int \<times> int \<times> int" where
  "civil_of_doe y0 doe =
     civil_of_doc (y0 + 100 * min (doe div 36524) 3) (doe - min (doe div 36524) 3 * 36524)"

definition civil_from_days :: "int \<Rightarrow> int \<times> int \<times> int" where
  "civil_from_days z = civil_of_doe (400 * ((z + 719468) div 146097)) ((z + 719468) mod 146097)"

text \<open>Year, month (1 to 12) and day of the month to days since 1970-01-01.\<close>

definition days_from_civil :: "int \<Rightarrow> int \<Rightarrow> int \<Rightarrow> int" where
  "days_from_civil y m d =
     (let y1 = (if m \<le> 2 then y - 1 else y);
          era = y1 div 400;
          yoe = y1 mod 400;
          mp = (if m > 2 then m - 3 else m + 9);
          doy = (153 * mp + 2) div 5 + d - 1;
          doe = yoe * 365 + yoe div 4 - yoe div 100 + doy
      in era * 146097 + doe - 719468)"

definition isLeapYear :: "int \<Rightarrow> bool" where
  "isLeapYear y \<longleftrightarrow> (y mod 4 = 0 \<and> y mod 100 \<noteq> 0) \<or> y mod 400 = 0"

text \<open>moment's \<^verbatim>\<open>daysInMonth(year, month)\<close>, the month counted from 0, for months 0 to 11.\<close>

definition daysInMonth :: "int \<Rightarrow> int \<Rightarrow> int" where
  "daysInMonth y m0 =
     (if m0 = 1 then (if isLeapYear y then 29 else 28) else 31 - ((m0 mod 7) mod 2))"

text \<open>moment's \<^verbatim>\<open>zeroFill(number, targetLength)\<close>.\<close>

definition zeroFill :: "int \<Rightarrow> nat \<Rightarrow> jsstring" where
  "zeroFill n len =
     (let absNumber = dec (nat \<bar>n\<bar>)
      in (if n \<ge> 0 then [] else asc ''-'') @ replicate (len - length absNumber) 48 @ absNumber)"

text \<open>\<^verbatim>\<open>moment(t).format('YYYY-MM-DD')\<close> and \<^verbatim>\<open>moment(t).format('HH:mm')\<close>.\<close>

definition format_date :: "int \<Rightarrow> int \<Rightarrow> jsstring" where
  "format_date off t =
     (case civil_from_days ((t + off) div msPerDay) of
        (y, m, d) \<Rightarrow> zeroFill y 4 @ asc ''-'' @ zeroFill m 2 @ asc ''-'' @ zeroFill d 2)"

definition format_hm :: "int \<Rightarrow> int \<Rightarrow> jsstring" where
  "format_hm off t =
     (let ms = (t + off) mod msPerDay
      in zeroFill (ms div 3600000) 2 @ asc '':'' @ zeroFill ((ms div 60000) mod 60) 2)"

text \<open>
  \<^verbatim>\<open>moment(`${dateStr} ${timeStr}`, 'YYYY-MM-DD HH:mm')\<close> for a date of the shape
  \<^verbatim>\<open>dddd-dd-dd\<close> and a time of the shape \<^verbatim>\<open>dd:dd\<close>, which is what the grammar captures.
  The result is \<open>None\<close> when \<^verbatim>\<open>isValid()\<close> is false (moment's overflow check: month,
  day of the month, hour, minute), else \<^verbatim>\<open>valueOf()\<close>. Hour 24 with minute 0 is valid
  and is midnight of the next day.
\<close>

definition moment_parse :: "int \<Rightarrow> jsstring \<Rightarrow> jsstring \<Rightarrow> int option" where
  "moment_parse off dateStr timeStr =
     (let y = digits_value (take 4 dateStr);
          mo = digits_value (take 2 (drop 5 dateStr));
          d = digits_value (drop 8 dateStr);
          h = digits_value (take 2 timeStr);
          mi = digits_value (drop 3 timeStr)
      in if mo - 1 < 0 \<or> mo - 1 > 11 then None
         else if d < 1 \<or> d > daysInMonth y (mo - 1) then None
         else if h < 0 \<or> h > 24 \<or> (h = 24 \<and> mi \<noteq> 0) then None
         else if mi < 0 \<or> mi > 59 then None
         else Some (days_from_civil y mo d * msPerDay + h * 3600000 + mi * 60000 - off))"

section \<open>The log-line grammar\<close>

text \<open>
  The regular expression of \<^verbatim>\<open>parseLogsFromMarkdown\<close>:
  \<^verbatim>\<open>^(?:[-*]\s+)?(?:\+\+|T|S)\s+(\d{4}-\d{2}-\d{2})\s+(\d{2}:\d{2})\s*[EN EM -]\s*(\d{2}:\d{2})\s+\((\d+)\s+m\<close>
  where T is the tomato emoji, S the stopwatch sign, EN and EM the two dashes.
  Each piece below consumes a prefix of the input and returns the rest. The greedy
  repetitions \<^verbatim>\<open>\s+\<close>, \<^verbatim>\<open>\s*\<close> and \<^verbatim>\<open>\d+\<close> are each followed by a character outside their
  class, and the optional bullet starts with a character no marker starts with, so the
  backtracking matcher of JavaScript finds a match exactly when this left-to-right
  reading does, with the same captures.
\<close>

text \<open>\<^verbatim>\<open>\s+\<close>\<close>

definition ws1 :: "jsstring \<Rightarrow> jsstring option" where
  "ws1 s = (case s of [] \<Rightarrow> None | c # r \<Rightarrow> if isWs c then Some (dropWhile isWs r) else None)"

text \<open>\<^verbatim>\<open>\s*\<close>\<close>

definition ws0 :: "jsstring \<Rightarrow> jsstring" where
  "ws0 s = dropWhile isWs s"

text \<open>A literal.\<close>

definition lit :: "jsstring \<Rightarrow> jsstring \<Rightarrow> jsstring option" where
  "lit p s = (if take (length p) s = p then Some (drop (length p) s) else None)"

text \<open>\<^verbatim>\<open>\d{n}\<close>\<close>

definition digitsN :: "nat \<Rightarrow> jsstring \<Rightarrow> (jsstring \<times> jsstring) option" where
  "digitsN n s =
     (if n \<le> length s \<and> list_all isDigit (take n s) then Some (take n s, drop n s) else None)"

text \<open>\<^verbatim>\<open>(?:[-*]\s+)?\<close>\<close>

definition bullet :: "jsstring \<Rightarrow> jsstring" where
  "bullet s =
     (case s of [] \<Rightarrow> s
      | c # r \<Rightarrow> if c = 45 \<or> c = 42 then (case ws1 r of None \<Rightarrow> s | Some r' \<Rightarrow> r') else s)"

text \<open>\<^verbatim>\<open>(?:\+\+|T|S)\<close>\<close>

definition marker :: "jsstring \<Rightarrow> jsstring option" where
  "marker s =
     (case lit (asc ''++'') s of Some r \<Rightarrow> Some r
      | None \<Rightarrow> (case lit tomato s of Some r \<Rightarrow> Some r
                | None \<Rightarrow> lit stopwatch_sign s))"

text \<open>\<^verbatim>\<open>(\d{4}-\d{2}-\d{2})\<close>\<close>

definition date_group :: "jsstring \<Rightarrow> (jsstring \<times> jsstring) option" where
  "date_group s =
     (case digitsN 4 s of None \<Rightarrow> None
      | Some (y, r1) \<Rightarrow>
     (case lit (asc ''-'') r1 of None \<Rightarrow> None
      | Some r2 \<Rightarrow>
     (case digitsN 2 r2 of None \<Rightarrow> None
      | Some (m, r3) \<Rightarrow>
     (case lit (asc ''-'') r3 of None \<Rightarrow> None
      | Some r4 \<Rightarrow>
     (case digitsN 2 r4 of None \<Rightarrow> None
      | Some (d, r5) \<Rightarrow> Some (y @ asc ''-'' @ m @ asc ''-'' @ d, r5))))))"

text \<open>\<^verbatim>\<open>(\d{2}:\d{2})\<close>\<close>

definition time_group :: "jsstring \<Rightarrow> (jsstring \<times> jsstring) option" where
  "time_group s =
     (case digitsN 2 s of None \<Rightarrow> None
      | Some (h, r1) \<Rightarrow>
     (case lit (asc '':'') r1 of None \<Rightarrow> None
      | Some r2 \<Rightarrow>
     (case digitsN 2 r2 of None \<Rightarrow> None
      | Some (m, r3) \<Rightarrow> Some (h @ asc '':'' @ m, r3))))"

text \<open>\<^verbatim>\<open>[EN EM -]\<close>\<close>

definition dash :: "jsstring \<Rightarrow> jsstring option" where
  "dash s =
     (case s of [] \<Rightarrow> None
      | c # r \<Rightarrow> if c = en_dash \<or> c = em_dash \<or> c = hyphen then Some r else None)"

text \<open>\<^verbatim>\<open>(\d+)\<close>\<close>

definition digits1 :: "jsstring \<Rightarrow> (jsstring \<times> jsstring) option" where
  "digits1 s =
     (if takeWhile isDigit s = [] then None else Some (takeWhile isDigit s, dropWhile isDigit s))"

text \<open>
  \<^verbatim>\<open>s.match(lineRegex)\<close>: the four captures \<^verbatim>\<open>dateStr\<close>, \<^verbatim>\<open>startStr\<close>, \<^verbatim>\<open>endStr\<close> and
  \<^verbatim>\<open>minsStr\<close>, or \<open>None\<close> when the line does not match.
\<close>

definition match_line :: "jsstring \<Rightarrow> (jsstring \<times> jsstring \<times> jsstring \<times> jsstring) option" where
  "match_line s =
     (case marker (bullet s) of None \<Rightarrow> None
      | Some r1 \<Rightarrow>
     (case ws1 r1 of None \<Rightarrow> None
      | Some r2 \<Rightarrow>
     (case date_group r2 of None \<Rightarrow> None
      | Some (dateStr, r3) \<Rightarrow>
     (case ws1 r3 of None \<Rightarrow> None
      | Some r4 \<Rightarrow>
     (case time_group r4 of None \<Rightarrow> None
      | Some (startStr, r5) \<Rightarrow>
     (case dash (ws0 r5) of None \<Rightarrow> None
      | Some r6 \<Rightarrow>
     (case time_group (ws0 r6) of None \<Rightarrow> None
      | Some (endStr, r7) \<Rightarrow>
     (case ws1 r7 of None \<Rightarrow> None
      | Some r8 \<Rightarrow>
     (case lit (asc ''('') r8 of None \<Rightarrow> None
      | Some r9 \<Rightarrow>
     (case digits1 r9 of None \<Rightarrow> None
      | Some (minsStr, r10) \<Rightarrow>
     (case ws1 r10 of None \<Rightarrow> None
      | Some r11 \<Rightarrow>
     (case lit (asc ''m'') r11 of None \<Rightarrow> None
      | Some r12 \<Rightarrow> Some (dateStr, startStr, endStr, minsStr)))))))))))))"

section \<open>Sessions and the document tree\<close>

datatype TimerMode = Stopwatch | Pomodoro | Break

text \<open>
  \<^verbatim>\<open>FocusSession\<close>. The fields \<^verbatim>\<open>mode\<close>, \<^verbatim>\<open>start\<close> and \<^verbatim>\<open>end\<close> carry the prefix \<open>fs_\<close>.
  Card ids are strings; an absent id (\<^verbatim>\<open>undefined\<close>) is \<open>None\<close>.
\<close>

record FocusSession =
  cardId :: "string option"
  cardTitle :: "jsstring option"
  fs_mode :: TimerMode
  fs_start :: int
  fs_end :: int
  duration :: jsnum

text \<open>
  A card of a board: its id, \<^verbatim>\<open>data.titleRaw\<close>, \<^verbatim>\<open>data.title\<close> and its nested cards.
  A lane has an id and cards; a board (\<^verbatim>\<open>sm.state.children\<close>) is a list of lanes.
\<close>

datatype Item = Item (item_id: string) (titleRaw: jsstring) (title: jsstring) (children: "Item list")

record Lane =
  lane_id :: string
  lane_children :: "Item list"

datatype SettingKey =
  TimerPomodoro | TimerShortBreak | TimerLongBreak | TimerLongBreakInterval | TimerAutoRounds

text \<open>
  A state manager: the board it holds (every registered board is taken as loaded) and the
  answer of its \<^verbatim>\<open>getSetting\<close>, \<open>None\<close> for \<^verbatim>\<open>undefined\<close> or \<^verbatim>\<open>null\<close>.
\<close>

record StateManager =
  sm_state :: "Lane list"
  getSetting :: "SettingKey \<Rightarrow> int option"

text \<open>
  The body of the inner loop of \<^verbatim>\<open>extractItemLogsRecursive\<close> for one line \<open>ln\<close> of the card
  \<open>cid\<close>: the session the line stands for, if it matches the grammar, both moments are
  valid, and \<^verbatim>\<open>duration > 0 && end > start\<close>.
\<close>

definition parse_line :: "int \<Rightarrow> string \<Rightarrow> jsstring \<Rightarrow> jsstring \<Rightarrow> FocusSession option" where
  "parse_line off cid ttl ln =
     (case match_line (trim ln) of None \<Rightarrow> None
      | Some (dateStr, startStr, endStr, minsStr) \<Rightarrow>
     (case moment_parse off dateStr startStr of None \<Rightarrow> None
      | Some st \<Rightarrow>
     (case moment_parse off dateStr endStr of None \<Rightarrow> None
      | Some en \<Rightarrow>
        let dur = js_times (parseInt10 minsStr) 60000
        in if js_positive dur \<and> en > st
           then Some \<lparr>cardId = Some cid, cardTitle = Some ttl,
                      fs_mode = (if js_includes ln tomato then Pomodoro else Stopwatch),
                      fs_start = st, fs_end = en, duration = dur\<rparr>
           else None)))"

text \<open>
  One line against the log built so far: the session is pushed unless
  \<^verbatim>\<open>this.logs.find((l) => l.start === start && l.cardId === it.id)\<close> finds an entry.
\<close>

definition push_line :: "int \<Rightarrow> string \<Rightarrow> jsstring \<Rightarrow> FocusSession list \<Rightarrow> jsstring \<Rightarrow> FocusSession list" where
  "push_line off cid ttl lgs ln =
     (case parse_line off cid ttl ln of None \<Rightarrow> lgs
      | Some fs \<Rightarrow>
          if list_ex (\<lambda>l. fs_start l = fs_start fs \<and> cardId l = Some cid) lgs then lgs
          else lgs @ [fs])"

text \<open>\<^verbatim>\<open>extractItemLogsRecursive\<close>: the lines after the first of each card, then its children.\<close>

fun extractItemLogs :: "int \<Rightarrow> Item \<Rightarrow> FocusSession list \<Rightarrow> FocusSession list"
  and extractItemLogsRecursive :: "int \<Rightarrow> Item list \<Rightarrow> FocusSession list \<Rightarrow> FocusSession list"
where
  "extractItemLogs off (Item cid raw ttl ch) lgs =
     extractItemLogsRecursive off ch (foldl (push_line off cid ttl) lgs (drop 1 (split_lines raw)))"
| "extractItemLogsRecursive off [] lgs = lgs"
| "extractItemLogsRecursive off (it # its) lgs =
     extractItemLogsRecursive off its (extractItemLogs off it lgs)"

text \<open>\<^verbatim>\<open>parseLogsFromMarkdown\<close>: every lane of every board, in order.\<close>

definition parseLogsFromMarkdown :: "int \<Rightarrow> StateManager list \<Rightarrow> FocusSession list \<Rightarrow> FocusSession list" where
  "parseLogsFromMarkdown off sms lgs =
     foldl (\<lambda>acc sm. foldl (\<lambda>acc2 lane. extractItemLogsRecursive off (lane_children lane) acc2)
                        acc (sm_state sm)) lgs sms"

section \<open>Writing a session into its card\<close>

text \<open>
  \<^verbatim>\<open>Math.round(duration / 60000)\<close> for an integer duration: halves round towards
  plus infinity.
\<close>

definition round_minutes :: "int \<Rightarrow> int" where
  "round_minutes dur = (dur + 30000) div 60000"

text \<open>The line of \<^verbatim>\<open>appendSessionToMarkdown\<close>.\<close>

definition format_line :: "int \<Rightarrow> int \<Rightarrow> int \<Rightarrow> int \<Rightarrow> jsstring" where
  "format_line off st en dur =
     asc ''++ '' @ format_date off st @ asc '' '' @ format_hm off st @ asc '' '' @ [en_dash]
       @ asc '' '' @ format_hm off en @ asc '' ('' @ num_to_string (round_minutes dur) @ asc '' m)''"

text \<open>
  Modelled from the spec: \<^verbatim>\<open>StateManager.updateItemContent\<close>, which is not among the
  sources: given a card and a new raw body it produces the updated card. The display
  title is left as it was.
\<close>

definition updateItemContent :: "Item \<Rightarrow> jsstring \<Rightarrow> Item" where
  "updateItemContent it newContent = Item (item_id it) newContent (title it) (children it)"

text \<open>
  Modelled from the spec: \<^verbatim>\<open>StateManager.setState\<close>, which is not among the sources:
  the state manager takes the updated board and has the document persisted.
\<close>

definition setState :: "Lane list \<Rightarrow> StateManager \<Rightarrow> StateManager" where
  "setState updated sm = sm\<lparr>sm_state := updated\<rparr>"

text \<open>
  \<^verbatim>\<open>Array.prototype.map\<close> always returns a newly allocated array. The tests
  \<^verbatim>\<open>newChildren !== it.children\<close>, \<^verbatim>\<open>newChildren !== lane.children\<close> and
  \<^verbatim>\<open>newLanes === board.children\<close> of \<^verbatim>\<open>appendToBoard\<close> compare the reference of such a
  fresh array with the reference of the array it was mapped from, so they are never the
  same array, whatever the contents.
\<close>

definition same_array :: "'a list \<Rightarrow> 'a list \<Rightarrow> bool" where
  "same_array fresh original = False"

text \<open>The inner function \<^verbatim>\<open>updateItems\<close> of \<^verbatim>\<open>appendToBoard\<close>.\<close>

fun updateItem :: "string \<Rightarrow> jsstring \<Rightarrow> Item \<Rightarrow> Item"
  and updateItems :: "string \<Rightarrow> jsstring \<Rightarrow> Item list \<Rightarrow> Item list"
where
  "updateItem cid line (Item i raw ttl ch) =
     (if i = cid then updateItemContent (Item i raw ttl ch) (raw @ [10] @ line)
      else if ch \<noteq> [] then
        (let newChildren = updateItems cid line ch
         in if \<not> same_array newChildren ch then Item i raw ttl newChildren else Item i raw ttl ch)
      else Item i raw ttl ch)"
| "updateItems cid line [] = []"
| "updateItems cid line (it # its) = updateItem cid line it # updateItems cid line its"

text \<open>The inner function \<^verbatim>\<open>traverseLanes\<close>.\<close>

definition traverseLanes :: "string \<Rightarrow> jsstring \<Rightarrow> Lane list \<Rightarrow> Lane list" where
  "traverseLanes cid line lanes =
     map (\<lambda>lane. let newChildren = updateItems cid line (lane_children lane)
                  in if \<not> same_array newChildren (lane_children lane)
                     then lane\<lparr>lane_children := newChildren\<rparr> else lane) lanes"

text \<open>\<^verbatim>\<open>appendToBoard\<close>: \<open>None\<close> is the source's \<^verbatim>\<open>null\<close>.\<close>

definition appendToBoard :: "Lane list \<Rightarrow> string \<Rightarrow> jsstring \<Rightarrow> Lane list option" where
  "appendToBoard board cid line =
     (let newLanes = traverseLanes cid line board
      in if same_array newLanes board then None else Some newLanes)"

text \<open>The loop of \<^verbatim>\<open>appendSessionToMarkdown\<close> over the state managers, with its \<^verbatim>\<open>break\<close>.\<close>

fun append_loop :: "string \<Rightarrow> jsstring \<Rightarrow> StateManager list \<Rightarrow> StateManager list" where
  "append_loop cid line [] = []"
| "append_loop cid line (sm # sms) =
     (case appendToBoard (sm_state sm) cid line of
        Some updated \<Rightarrow> setState updated sm # sms
      | None \<Rightarrow> sm # append_loop cid line sms)"

text \<open>In JavaScript \<^verbatim>\<open>!cardId\<close> holds for \<^verbatim>\<open>undefined\<close> and for the empty string.\<close>

definition falsy :: "string option \<Rightarrow> bool" where
  "falsy c \<longleftrightarrow> c = None \<or> c = Some []"

definition appendSessionToMarkdown ::
  "int \<Rightarrow> string option \<Rightarrow> int \<Rightarrow> int \<Rightarrow> int \<Rightarrow> StateManager list \<Rightarrow> StateManager list" where
  "appendSessionToMarkdown off c st en dur sms =
     (if falsy c then sms else append_loop (the c) (format_line off st en dur) sms)"

text \<open>\<^verbatim>\<open>findItemInLane\<close>, applied to the children of a lane or of a card.\<close>

fun findItemInLane :: "string \<Rightarrow> Item list \<Rightarrow> Item option" where
  "findItemInLane cid [] = None"
| "findItemInLane cid (Item i raw ttl ch # its) =
     (if ttl \<noteq> [] \<and> i = cid then Some (Item i raw ttl ch)
      else (case findItemInLane cid ch of
              Some found \<Rightarrow> Some found
            | None \<Rightarrow> findItemInLane cid its))"

text \<open>\<^verbatim>\<open>getCardTitle\<close>\<close>

fun title_in_lanes :: "string \<Rightarrow> Lane list \<Rightarrow> jsstring option" where
  "title_in_lanes cid [] = None"
| "title_in_lanes cid (lane # lanes) =
     (case findItemInLane cid (lane_children lane) of
        Some it \<Rightarrow> Some (title it)
      | None \<Rightarrow> title_in_lanes cid lanes)"

fun title_in_boards :: "string \<Rightarrow> StateManager list \<Rightarrow> jsstring option" where
  "title_in_boards cid [] = None"
| "title_in_boards cid (sm # sms) =
     (case title_in_lanes cid (sm_state sm) of
        Some t \<Rightarrow> Some t
      | None \<Rightarrow> title_in_boards cid sms)"

definition getCardTitle :: "StateManager list \<Rightarrow> string option \<Rightarrow> jsstring option" where
  "getCardTitle sms c = (if falsy c then None else title_in_boards (the c) sms)"

section \<open>The timer manager\<close>

text \<open>\<^verbatim>\<open>TimerState\<close>; its field \<^verbatim>\<open>start\<close> is \<open>st_start\<close> here.\<close>

record TimerState =
  running :: bool
  mode :: TimerMode
  st_start :: int
  elapsed :: int
  targetCardId :: "string option"

text \<open>
  What the manager does to the outside, in order: events of its emitter, notices,
  the end-of-session sound, callbacks handed to \<^verbatim>\<open>setTimeout\<close>, and the stop-reason
  modal it opens.
\<close>

datatype Event = EvTick | EvStart | EvStop | EvChange | EvLog

datatype Notice =
  NoticeSelectCard
  | NoticeBreakOver
  | NoticeBreakSkipped
  | NoticeTooShort
  | NoticeAutoStarting int int
  | NoticeCompletedRounds int
  | NoticeTimerStopped jsstring

datatype Deferred =
  NextRoundAfterBreak
  | NextRoundAfterSkip "string option"
  | RoundsDoneAfterSkip

datatype Effect =
  Emit Event
  | Notify Notice
  | PlayEndSound
  | SetTimeout Deferred
  | OpenStopReasonModal

text \<open>
  \<^verbatim>\<open>TimerManager\<close>, with the parts of the plugin it reads: the global settings
  (\<open>None\<close> where \<^verbatim>\<open>Number(...)\<close> gives NaN), the state managers in the order of the map,
  and the offset of local time.
\<close>

record TimerManager =
  state :: TimerState
  logs :: "FocusSession list"
  currentSessionStart :: int
  markdownParsed :: bool
  lastParsedSmCount :: nat
  pomodoroDefault :: int
  breakDurationMs :: int
  pomodoroCount :: int
  shortBreakMs :: int
  longBreakMs :: int
  longBreakInterval :: int
  autoRounds :: int
  lastWorkMode :: TimerMode
  lastWorkCardId :: "string option"
  currentAutoRound :: int
  settings :: "SettingKey \<Rightarrow> int option"
  stateManagers :: "StateManager list"
  utcOffset :: int
  effects :: "Effect list"

definition emit :: "Event \<Rightarrow> TimerManager \<Rightarrow> TimerManager" where
  "emit e m = m\<lparr>effects := effects m @ [Emit e]\<rparr>"

definition notify :: "Notice \<Rightarrow> TimerManager \<Rightarrow> TimerManager" where
  "notify n m = m\<lparr>effects := effects m @ [Notify n]\<rparr>"

definition playEndSound :: "TimerManager \<Rightarrow> TimerManager" where
  "playEndSound m = m\<lparr>effects := effects m @ [PlayEndSound]\<rparr>"

definition setTimeout :: "Deferred \<Rightarrow> TimerManager \<Rightarrow> TimerManager" where
  "setTimeout d m = m\<lparr>effects := effects m @ [SetTimeout d]\<rparr>"

text \<open>A duration setting in minutes, as milliseconds when it is a number above 0.\<close>

definition minutes_or :: "int option \<Rightarrow> int \<Rightarrow> int" where
  "minutes_or v dflt = (case v of Some n \<Rightarrow> if n > 0 then n * 60 * 1000 else dflt | None \<Rightarrow> dflt)"

text \<open>\<^verbatim>\<open>Number(v) || dflt\<close>\<close>

definition number_or :: "int option \<Rightarrow> int \<Rightarrow> int" where
  "number_or v dflt = (case v of Some n \<Rightarrow> if n = 0 then dflt else n | None \<Rightarrow> dflt)"

definition updateSettings :: "TimerManager \<Rightarrow> TimerManager" where
  "updateSettings m =
     m\<lparr>pomodoroDefault := minutes_or (settings m TimerPomodoro) (25 * 60 * 1000),
       shortBreakMs := minutes_or (settings m TimerShortBreak) (5 * 60 * 1000),
       longBreakMs := minutes_or (settings m TimerLongBreak) (15 * 60 * 1000),
       longBreakInterval := number_or (settings m TimerLongBreakInterval) 4,
       autoRounds := number_or (settings m TimerAutoRounds) 0\<rparr>"

text \<open>
  The inner function \<^verbatim>\<open>contains\<close> of \<^verbatim>\<open>resolveTimerSettingForCard\<close>: some lane or card of
  the board has the id. The source walks the tree with a stack; the answer does not
  depend on the order.
\<close>

fun item_has_id :: "string \<Rightarrow> Item \<Rightarrow> bool"
  and items_have_id :: "string \<Rightarrow> Item list \<Rightarrow> bool"
where
  "item_has_id cid (Item i raw ttl ch) = (i = cid \<or> items_have_id cid ch)"
| "items_have_id cid [] = False"
| "items_have_id cid (it # its) = (item_has_id cid it \<or> items_have_id cid its)"

definition contains_id :: "string \<Rightarrow> Lane list \<Rightarrow> bool" where
  "contains_id cid board =
     list_ex (\<lambda>lane. lane_id lane = cid \<or> items_have_id cid (lane_children lane)) board"

fun resolve_loop :: "string \<Rightarrow> SettingKey \<Rightarrow> StateManager list \<Rightarrow> int option" where
  "resolve_loop cid k [] = None"
| "resolve_loop cid k (sm # sms) =
     (if contains_id cid (sm_state sm)
      then (case getSetting sm k of Some v \<Rightarrow> Some v | None \<Rightarrow> resolve_loop cid k sms)
      else resolve_loop cid k sms)"

definition resolveTimerSettingForCard ::
  "StateManager list \<Rightarrow> string option \<Rightarrow> SettingKey \<Rightarrow> int option" where
  "resolveTimerSettingForCard sms c k = (if falsy c then None else resolve_loop (the c) k sms)"

text \<open>A board-local value that is a number above 0, else the global fallback.\<close>

definition local_or :: "int option \<Rightarrow> (int \<Rightarrow> int) \<Rightarrow> int \<Rightarrow> int" where
  "local_or v f fallback = (case v of Some n \<Rightarrow> if n > 0 then f n else fallback | None \<Rightarrow> fallback)"

definition applyTimerSettingsForCard :: "string option \<Rightarrow> TimerManager \<Rightarrow> TimerManager" where
  "applyTimerSettingsForCard c m =
     (if falsy c then updateSettings m
      else
        let loc = resolveTimerSettingForCard (stateManagers m) c
        in m\<lparr>pomodoroDefault :=
               local_or (loc TimerPomodoro) (\<lambda>n. n * 60 * 1000)
                 (minutes_or (settings m TimerPomodoro) (25 * 60 * 1000)),
             shortBreakMs :=
               local_or (loc TimerShortBreak) (\<lambda>n. n * 60 * 1000)
                 (minutes_or (settings m TimerShortBreak) (5 * 60 * 1000)),
             longBreakMs :=
               local_or (loc TimerLongBreak) (\<lambda>n. n * 60 * 1000)
                 (minutes_or (settings m TimerLongBreak) (15 * 60 * 1000)),
             longBreakInterval :=
               local_or (loc TimerLongBreakInterval) (\<lambda>n. n)
                 (number_or (settings m TimerLongBreakInterval) 4),
             autoRounds :=
               (case loc TimerAutoRounds of
                  Some n \<Rightarrow> if n \<ge> 0 then n else number_or (settings m TimerAutoRounds) 0
                | None \<Rightarrow> number_or (settings m TimerAutoRounds) 0)\<rparr>)"

text \<open>
  The operations take the reading of \<^verbatim>\<open>Date.now()\<close> as the argument \<open>now\<close>: one call of
  an operation runs within one reading of the clock.
\<close>

definition reset :: "TimerMode \<Rightarrow> string option \<Rightarrow> bool \<Rightarrow> TimerManager \<Rightarrow> TimerManager" where
  "reset md c resetAutoRound m =
     (let m1 = m\<lparr>state := \<lparr>running = False, mode = md, st_start = 0, elapsed = 0,
                              targetCardId = c\<rparr>\<rparr>;
          m2 = (if resetAutoRound then m1\<lparr>currentAutoRound := 0\<rparr> else m1)
      in emit EvChange m2)"

definition stopTimer :: "int \<Rightarrow> TimerManager \<Rightarrow> TimerManager" where
  "stopTimer now m =
     (if \<not> running (state m) then m
      else emit EvChange
             (m\<lparr>state := (state m)\<lparr>elapsed := elapsed (state m) + (now - st_start (state m)),
                                     running := False\<rparr>\<rparr>))"

definition resumeTimer :: "int \<Rightarrow> TimerManager \<Rightarrow> TimerManager" where
  "resumeTimer now m =
     (if running (state m) then m
      else emit EvChange (emit EvStart (m\<lparr>state := (state m)\<lparr>running := True, st_start := now\<rparr>\<rparr>)))"

definition start :: "int \<Rightarrow> TimerMode \<Rightarrow> string option \<Rightarrow> TimerManager \<Rightarrow> TimerManager" where
  "start now md c m =
     (if falsy c then notify NoticeSelectCard m
      else if running (state m) then m
      else
        let m1 = applyTimerSettingsForCard c m;
            m2 = (if md = Pomodoro \<or> md = Stopwatch
                  then m1\<lparr>lastWorkMode := md, lastWorkCardId := c\<rparr> else m1);
            m3 = (if md = Pomodoro \<and> currentAutoRound m2 = 0 \<and> autoRounds m2 = 0
                  then m2\<lparr>currentAutoRound := 0\<rparr> else m2);
            m4 = m3\<lparr>state := (state m3)\<lparr>mode := md, targetCardId := c, running := True,
                                          st_start := now\<rparr>\<rparr>;
            m5 = m4\<lparr>currentSessionStart := st_start (state m4)\<rparr>
        in emit EvChange (emit EvStart m5))"

text \<open>The closure \<^verbatim>\<open>finalizeSession\<close> of \<^verbatim>\<open>stop\<close>.\<close>

definition finalizeSession :: "int \<Rightarrow> TimerManager \<Rightarrow> TimerManager" where
  "finalizeSession now m =
     (let en = now;
          dur = en - currentSessionStart m;
          m1 = m\<lparr>logs := logs m @
                 [\<lparr>cardId = targetCardId (state m),
                   cardTitle = getCardTitle (stateManagers m) (targetCardId (state m)),
                   fs_mode = mode (state m),
                   fs_start = currentSessionStart m, fs_end = en, duration = Num dur\<rparr>]\<rparr>;
          m2 = m1\<lparr>stateManagers :=
                 appendSessionToMarkdown (utcOffset m1) (targetCardId (state m1))
                   (currentSessionStart m1) en dur (stateManagers m1)\<rparr>;
          m3 = emit EvLog m2;
          m4 = reset (mode (state m3)) (targetCardId (state m3)) (autoRounds m3 = 0) m3
      in emit EvChange m4)"

definition stop :: "int \<Rightarrow> bool \<Rightarrow> TimerManager \<Rightarrow> TimerManager" where
  "stop now askReason m =
     (if \<not> running (state m) then m
      else if now - currentSessionStart m < 60 * 1000 then
        (let m1 = stopTimer now m;
             m2 = reset (mode (state m1)) (targetCardId (state m1)) (autoRounds m1 = 0) m1
         in notify NoticeTooShort (emit EvChange m2))
      else
        (let m1 = stopTimer now m
         in if \<not> askReason then finalizeSession now m1
            else m1\<lparr>effects := effects m1 @ [OpenStopReasonModal]\<rparr>))"

text \<open>The two callbacks given to the stop-reason modal: a reason chosen, or the modal closed.\<close>

definition stopReasonSelected :: "int \<Rightarrow> jsstring \<Rightarrow> TimerManager \<Rightarrow> TimerManager" where
  "stopReasonSelected now reason m =
     finalizeSession now (notify (NoticeTimerStopped reason) (emit EvStop m))"

definition stopReasonClosed :: "int \<Rightarrow> TimerManager \<Rightarrow> TimerManager" where
  "stopReasonClosed now m = resumeTimer now m"

definition toggle :: "int \<Rightarrow> TimerMode \<Rightarrow> string option \<Rightarrow> TimerManager \<Rightarrow> TimerManager" where
  "toggle now md c m =
     (if running (state m) then
        (if falsy c \<or> c = targetCardId (state m) then stop now True m
         else
           let dur = now - currentSessionStart m;
               m1 = m\<lparr>logs := logs m @
                      [\<lparr>cardId = targetCardId (state m),
                        cardTitle = getCardTitle (stateManagers m) (targetCardId (state m)),
                        fs_mode = mode (state m),
                        fs_start = currentSessionStart m, fs_end = now, duration = Num dur\<rparr>]\<rparr>;
               m2 = m1\<lparr>stateManagers :=
                      appendSessionToMarkdown (utcOffset m1) (targetCardId (state m1))
                        (currentSessionStart m1) now dur (stateManagers m1)\<rparr>;
               m3 = emit EvLog m2;
               m4 = m3\<lparr>state := (state m3)\<lparr>targetCardId := c\<rparr>\<rparr>;
               m5 = (if mode (state m4) = Pomodoro \<or> mode (state m4) = Stopwatch
                     then m4\<lparr>lastWorkCardId := c\<rparr> else m4);
               m6 = m5\<lparr>currentSessionStart := now\<rparr>
           in emit EvChange m6)
      else start now md c m)"

definition skipBreak :: "int \<Rightarrow> TimerManager \<Rightarrow> TimerManager" where
  "skipBreak now m =
     (if \<not> running (state m) \<or> mode (state m) \<noteq> Break then m
      else
        let m1 = stopTimer now m;
            targetMode = lastWorkMode m1;
            tgt = lastWorkCardId m1;
            shouldResetAutoRound = (autoRounds m1 = 0);
            m2 = reset targetMode tgt shouldResetAutoRound m1;
            m3 = notify NoticeBreakSkipped (emit EvChange m2)
        in if autoRounds m3 > 0 then
             (if currentAutoRound m3 < autoRounds m3
              then setTimeout (NextRoundAfterSkip tgt) m3
              else setTimeout RoundsDoneAfterSkip m3)
           else m3)"

text \<open>
  The remainder operator \<^verbatim>\<open>%\<close> on integers: the sign of the dividend, and NaN (here
  \<open>None\<close>) for a zero divisor.
\<close>

definition js_rem :: "int \<Rightarrow> int \<Rightarrow> int option" where
  "js_rem a b = (if b = 0 then None else Some (sgn a * (\<bar>a\<bar> mod \<bar>b\<bar>)))"

definition completePomodoro :: "int \<Rightarrow> TimerManager \<Rightarrow> TimerManager" where
  "completePomodoro now m =
     (let m1 = playEndSound (stop now False m);
          m2 = m1\<lparr>pomodoroCount := pomodoroCount m1 + 1\<rparr>;
          m3 = m2\<lparr>currentAutoRound := currentAutoRound m2 + 1\<rparr>;
          isLong = (js_rem (pomodoroCount m3) (longBreakInterval m3) = Some 0);
          m4 = m3\<lparr>breakDurationMs := (if isLong then longBreakMs m3 else shortBreakMs m3)\<rparr>
      in start now Break (targetCardId (state m4)) m4)"

definition checkAndStartNextRound :: "TimerManager \<Rightarrow> TimerManager" where
  "checkAndStartNextRound m =
     (if autoRounds m > 0 \<and> currentAutoRound m < autoRounds m
      then setTimeout NextRoundAfterBreak m
      else if autoRounds m > 0 \<and> currentAutoRound m \<ge> autoRounds m
      then notify (NoticeCompletedRounds (autoRounds m)) (m\<lparr>currentAutoRound := 0\<rparr>)
      else m)"

definition tick :: "int \<Rightarrow> TimerManager \<Rightarrow> TimerManager" where
  "tick now m =
     (if \<not> running (state m) then m
      else
        let m1 = emit EvTick m;
            m2 = (if mode (state m1) = Pomodoro
                  then (let spent = now - st_start (state m1) + elapsed (state m1)
                        in if spent \<ge> pomodoroDefault m1 then completePomodoro now m1 else m1)
                  else m1)
        in if mode (state m2) = Break
           then (let spent = now - st_start (state m2) + elapsed (state m2)
                 in if spent \<ge> breakDurationMs m2
                    then checkAndStartNextRound
                           (playEndSound (notify NoticeBreakOver (stop now False m2)))
                    else m2)
           else m2)"

text \<open>A callback handed to \<^verbatim>\<open>setTimeout\<close>, when it runs at the time \<open>now\<close>.\<close>

fun run_deferred :: "int \<Rightarrow> Deferred \<Rightarrow> TimerManager \<Rightarrow> TimerManager" where
  "run_deferred now NextRoundAfterBreak m =
     (let m1 = start now Pomodoro (lastWorkCardId m) m
      in notify (NoticeAutoStarting (currentAutoRound m1 + 1) (autoRounds m1)) m1)"
| "run_deferred now (NextRoundAfterSkip tgt) m =
     (let m1 = start now Pomodoro tgt m
      in notify (NoticeAutoStarting (currentAutoRound m1 + 1) (autoRounds m1)) m1)"
| "run_deferred now RoundsDoneAfterSkip m =
     (let m1 = m\<lparr>currentAutoRound := 0\<rparr>
      in notify (NoticeCompletedRounds (autoRounds m1)) m1)"

subsection \<open>The session log store\<close>

definition ensureMarkdownLogs :: "TimerManager \<Rightarrow> TimerManager" where
  "ensureMarkdownLogs m =
     (if \<not> markdownParsed m \<or> length (stateManagers m) \<noteq> lastParsedSmCount m
      then m\<lparr>logs := parseLogsFromMarkdown (utcOffset m) (stateManagers m) [],
             markdownParsed := True,
             lastParsedSmCount := length (stateManagers m)\<rparr>
      else m)"

definition forceReparseLogs :: "TimerManager \<Rightarrow> TimerManager" where
  "forceReparseLogs m = ensureMarkdownLogs (m\<lparr>markdownParsed := False, lastParsedSmCount := 0\<rparr>)"

text \<open>The two queries return their answer and the manager after \<^verbatim>\<open>ensureMarkdownLogs\<close>.\<close>

definition getTotalFocused :: "string option \<Rightarrow> TimerManager \<Rightarrow> jsnum \<times> TimerManager" where
  "getTotalFocused c m =
     (let m1 = ensureMarkdownLogs m
      in if falsy c then (Num 0, m1)
         else (foldl (\<lambda>sum l. js_plus sum (duration l)) (Num 0)
                 (filter (\<lambda>l. cardId l = c) (logs m1)), m1))"

definition getLogsForDate :: "int \<Rightarrow> TimerManager \<Rightarrow> FocusSession list \<times> TimerManager" where
  "getLogsForDate date m =
     (let m1 = ensureMarkdownLogs m;
          dayStart = ((date + utcOffset m1) div msPerDay) * msPerDay - utcOffset m1;
          dayEnd = dayStart + 24 * 60 * 60 * 1000
      in (filter (\<lambda>l. fs_start l \<ge> dayStart \<and> fs_start l < dayEnd) (logs m1), m1))"

text \<open>The manager as its constructor leaves it.\<close>

definition new_manager ::
  "(SettingKey \<Rightarrow> int option) \<Rightarrow> StateManager list \<Rightarrow> int \<Rightarrow> TimerManager" where
  "new_manager st sms off =
     updateSettings
       \<lparr>state = \<lparr>running = False, mode = Stopwatch, st_start = 0, elapsed = 0,
                  targetCardId = None\<rparr>,
        logs = [], currentSessionStart = 0, markdownParsed = False, lastParsedSmCount = 0,
        pomodoroDefault = 25 * 60 * 1000, breakDurationMs = 5 * 60 * 1000, pomodoroCount = 0,
        shortBreakMs = 5 * 60 * 1000, longBreakMs = 15 * 60 * 1000, longBreakInterval = 4,
        autoRounds = 0, lastWorkMode = Pomodoro, lastWorkCardId = None, currentAutoRound = 0,
        settings = st, stateManagers = sms, utcOffset = off, effects = []\<rparr>"

section \<open>Concrete inputs\<close>

text \<open>
  One board with a lane holding the cards A and B, no board-local settings, no global
  settings, local time equal to UTC; and the manager its constructor builds over it.
\<close>

definition example_boards :: "StateManager list" where
  "example_boards =
     [\<lparr>sm_state = [\<lparr>lane_id = ''L1'',
                    lane_children = [Item ''A'' (asc ''Task A'') (asc ''Task A'') [],
                                     Item ''B'' (asc ''Task B'') (asc ''Task B'') []]\<rparr>],
       getSetting = (\<lambda>k. None)\<rparr>]"

definition example_manager :: TimerManager where
  "example_manager = new_manager (\<lambda>k. None) example_boards 0"

text \<open>The effects of \<open>m'\<close> are those of \<open>m\<close> followed by more.\<close>

definition extends :: "TimerManager \<Rightarrow> TimerManager \<Rightarrow> bool" where
  "extends m m' \<longleftrightarrow> (\<exists>r. effects m' = effects m @ r)"

text \<open>
  Two boards: the first holds only the card X, the second the cards A and B.
\<close>

definition two_boards :: "StateManager list" where
  "two_boards =
     [\<lparr>sm_state = [\<lparr>lane_id = ''L0'',
                    lane_children = [Item ''X'' (asc ''Task X'') (asc ''Task X'') []]\<rparr>],
       getSetting = (\<lambda>k. None)\<rparr>,
      \<lparr>sm_state = [\<lparr>lane_id = ''L1'',
                    lane_children = [Item ''A'' (asc ''Task A'') (asc ''Task A'') [],
                                     Item ''B'' (asc ''Task B'') (asc ''Task B'') []]\<rparr>],
       getSetting = (\<lambda>k. None)\<rparr>]"

text \<open>
  The operations on the session log store, for sequences of them: a forced reparse and the
  two queries.
\<close>

datatype LogOp = ForceReparse | TotalFocused "string option" | LogsForDate int

fun run_op :: "LogOp \<Rightarrow> TimerManager \<Rightarrow> TimerManager" where
  "run_op ForceReparse m = forceReparseLogs m"
| "run_op (TotalFocused c) m = snd (getTotalFocused c m)"
| "run_op (LogsForDate d) m = snd (getLogsForDate d m)"

definition run_ops :: "LogOp list \<Rightarrow> TimerManager \<Rightarrow> TimerManager" where
  "run_ops ops m = foldl (\<lambda>acc op. run_op op acc) m ops"

text \<open>The key by which \<^verbatim>\<open>extractItemLogsRecursive\<close> tells duplicates.\<close>

definition log_key :: "FocusSession \<Rightarrow> int \<times> string option" where
  "log_key l = (fs_start l, cardId l)"

text \<open>
  A board whose card A carries four lines after its title: a log line, the same line again,
  a bulleted pomodoro line, and a line that is no log line.
\<close>

definition line_25 :: jsstring where
  "line_25 = asc ''++ 2025-07-10 10:00 '' @ [en_dash] @ asc '' 10:25 (25 m)''"

definition line_pomodoro :: jsstring where
  "line_pomodoro = asc ''- '' @ tomato @ asc '' 2025-07-10 11:00 - 11:30 (30 m)''"


definition logged_boards :: "StateManager list" where
  "logged_boards =
     [\<lparr>sm_state = [\<lparr>lane_id = ''L1'',
                    lane_children =
                      [Item ''A'' (asc ''Task A'' @ [10] @ line_25 @ [10] @ line_25 @ [10]
                                   @ line_pomodoro @ [10] @ asc ''call Bob'')
                         (asc ''Task A'') []]\<rparr>],
       getSetting = (\<lambda>k. None)\<rparr>]"

text \<open>
  A manager with the global setting \<^verbatim>\<open>timer-auto-rounds\<close> at 2, over the same board.
\<close>

definition auto_settings :: "SettingKey \<Rightarrow> int option" where
  "auto_settings k = (if k = TimerAutoRounds then Some 2 else None)"

definition auto_manager :: TimerManager where
  "auto_manager = new_manager auto_settings example_boards 0"

section \<open>The state machine: what each operation leaves behind\<close>

lemmas eff_defs = emit_def notify_def playEndSound_def setTimeout_def

lemma reset_simps:
  "state (reset md c r m) = \<lparr>running = False, mode = md, st_start = 0, elapsed = 0, targetCardId = c\<rparr>"
  "logs (reset md c r m) = logs m"
  "stateManagers (reset md c r m) = stateManagers m"
  "currentAutoRound (reset md c r m) = (if r then 0 else currentAutoRound m)"
  "autoRounds (reset md c r m) = autoRounds m"
  "effects (reset md c r m) = effects m @ [Emit EvChange]"
  "lastWorkMode (reset md c r m) = lastWorkMode m"
  "lastWorkCardId (reset md c r m) = lastWorkCardId m"
  "shortBreakMs (reset md c r m) = shortBreakMs m"
  "longBreakMs (reset md c r m) = longBreakMs m"
  "longBreakInterval (reset md c r m) = longBreakInterval m"
  "pomodoroCount (reset md c r m) = pomodoroCount m"
  "breakDurationMs (reset md c r m) = breakDurationMs m"
  by (simp_all add: reset_def Let_def emit_def)

lemma stopTimer_simps:
  "running (state (stopTimer now m)) = False"
  "mode (state (stopTimer now m)) = mode (state m)"
  "targetCardId (state (stopTimer now m)) = targetCardId (state m)"
  "logs (stopTimer now m) = logs m"
  "stateManagers (stopTimer now m) = stateManagers m"
  "currentAutoRound (stopTimer now m) = currentAutoRound m"
  "autoRounds (stopTimer now m) = autoRounds m"
  "lastWorkMode (stopTimer now m) = lastWorkMode m"
  "lastWorkCardId (stopTimer now m) = lastWorkCardId m"
  "currentSessionStart (stopTimer now m) = currentSessionStart m"
  "utcOffset (stopTimer now m) = utcOffset m"
  "shortBreakMs (stopTimer now m) = shortBreakMs m"
  "longBreakMs (stopTimer now m) = longBreakMs m"
  "longBreakInterval (stopTimer now m) = longBreakInterval m"
  "pomodoroCount (stopTimer now m) = pomodoroCount m"
  "breakDurationMs (stopTimer now m) = breakDurationMs m"
  by (simp_all add: stopTimer_def emit_def)

lemma stopTimer_effects:
  "running (state m) \<Longrightarrow> effects (stopTimer now m) = effects m @ [Emit EvChange]"
  by (simp add: stopTimer_def emit_def)

lemma apply_simps:
  "state (applyTimerSettingsForCard c m) = state m"
  "logs (applyTimerSettingsForCard c m) = logs m"
  "stateManagers (applyTimerSettingsForCard c m) = stateManagers m"
  "currentAutoRound (applyTimerSettingsForCard c m) = currentAutoRound m"
  "lastWorkMode (applyTimerSettingsForCard c m) = lastWorkMode m"
  "lastWorkCardId (applyTimerSettingsForCard c m) = lastWorkCardId m"
  "effects (applyTimerSettingsForCard c m) = effects m"
  "breakDurationMs (applyTimerSettingsForCard c m) = breakDurationMs m"
  "pomodoroCount (applyTimerSettingsForCard c m) = pomodoroCount m"
  "currentSessionStart (applyTimerSettingsForCard c m) = currentSessionStart m"
  "utcOffset (applyTimerSettingsForCard c m) = utcOffset m"
  by (simp_all add: applyTimerSettingsForCard_def updateSettings_def Let_def)

lemma apply_durations:
  "0 < shortBreakMs (applyTimerSettingsForCard c m)"
  "0 < longBreakMs (applyTimerSettingsForCard c m)"
  "0 < pomodoroDefault (applyTimerSettingsForCard c m)"
  "longBreakInterval (applyTimerSettingsForCard c m) \<noteq> 0"
  by (simp_all add: applyTimerSettingsForCard_def updateSettings_def Let_def local_or_def
      minutes_or_def number_or_def split: option.splits)

lemma falsy_simps: "falsy None" "falsy (Some [])" "\<not> falsy (Some (x # xs))"
  by (simp_all add: falsy_def)

lemma start_falsy: "falsy c \<Longrightarrow> start now md c m = notify NoticeSelectCard m"
  by (simp add: start_def)

lemma start_running: "\<not> falsy c \<Longrightarrow> running (state m) \<Longrightarrow> start now md c m = m"
  by (simp add: start_def)

lemma start_idle:
  assumes "\<not> falsy c" and "\<not> running (state m)"
  shows "state (start now md c m) =
           \<lparr>running = True, mode = md, st_start = now, elapsed = elapsed (state m),
             targetCardId = c\<rparr>"
    and "currentSessionStart (start now md c m) = now"
    and "lastWorkMode (start now md c m) =
           (if md = Pomodoro \<or> md = Stopwatch then md else lastWorkMode m)"
    and "lastWorkCardId (start now md c m) =
           (if md = Pomodoro \<or> md = Stopwatch then c else lastWorkCardId m)"
    and "logs (start now md c m) = logs m"
    and "stateManagers (start now md c m) = stateManagers m"
    and "currentAutoRound (start now md c m) = currentAutoRound m"
    and "breakDurationMs (start now md c m) = breakDurationMs m"
    and "pomodoroCount (start now md c m) = pomodoroCount m"
    and "effects (start now md c m) = effects m @ [Emit EvStart, Emit EvChange]"
  using assms by (simp_all add: start_def Let_def apply_simps emit_def)

lemma start_durations:
  assumes "\<not> falsy c" and "\<not> running (state m)"
  shows "0 < shortBreakMs (start now md c m)"
    and "0 < longBreakMs (start now md c m)"
    and "0 < pomodoroDefault (start now md c m)"
    and "longBreakInterval (start now md c m) \<noteq> 0"
  using assms by (simp_all add: start_def Let_def emit_def apply_durations)

lemma finalizeSession_simps:
  "state (finalizeSession now m) =
     \<lparr>running = False, mode = mode (state m), st_start = 0, elapsed = 0,
       targetCardId = targetCardId (state m)\<rparr>"
  "logs (finalizeSession now m) = logs m @
     [\<lparr>cardId = targetCardId (state m),
       cardTitle = getCardTitle (stateManagers m) (targetCardId (state m)),
       fs_mode = mode (state m),
       fs_start = currentSessionStart m, fs_end = now,
       duration = Num (now - currentSessionStart m)\<rparr>]"
  "stateManagers (finalizeSession now m) =
     appendSessionToMarkdown (utcOffset m) (targetCardId (state m)) (currentSessionStart m) now
       (now - currentSessionStart m) (stateManagers m)"
  "currentAutoRound (finalizeSession now m) = (if autoRounds m = 0 then 0 else currentAutoRound m)"
  "shortBreakMs (finalizeSession now m) = shortBreakMs m"
  "longBreakMs (finalizeSession now m) = longBreakMs m"
  "longBreakInterval (finalizeSession now m) = longBreakInterval m"
  "pomodoroCount (finalizeSession now m) = pomodoroCount m"
  "breakDurationMs (finalizeSession now m) = breakDurationMs m"
  "lastWorkMode (finalizeSession now m) = lastWorkMode m"
  "lastWorkCardId (finalizeSession now m) = lastWorkCardId m"
  "effects (finalizeSession now m) = effects m @ [Emit EvLog, Emit EvChange, Emit EvChange]"
  by (simp_all add: finalizeSession_def Let_def reset_simps emit_def)

lemma stop_short:
  assumes "running (state m)" and "now - currentSessionStart m < 60000"
  shows "stop now askReason m =
     notify NoticeTooShort (emit EvChange
       (reset (mode (state m)) (targetCardId (state m)) (autoRounds m = 0) (stopTimer now m)))"
  using assms by (simp add: stop_def Let_def stopTimer_simps)

lemma stop_long_no_ask:
  assumes "running (state m)" and "\<not> now - currentSessionStart m < 60000"
  shows "stop now False m = finalizeSession now (stopTimer now m)"
  using assms by (simp add: stop_def Let_def)

lemma stop_no_ask_frame:
  assumes "running (state m)"
  shows "state (stop now False m) =
           \<lparr>running = False, mode = mode (state m), st_start = 0, elapsed = 0,
             targetCardId = targetCardId (state m)\<rparr>"
    and "shortBreakMs (stop now False m) = shortBreakMs m"
    and "longBreakMs (stop now False m) = longBreakMs m"
    and "longBreakInterval (stop now False m) = longBreakInterval m"
    and "pomodoroCount (stop now False m) = pomodoroCount m"
    and "lastWorkMode (stop now False m) = lastWorkMode m"
    and "lastWorkCardId (stop now False m) = lastWorkCardId m"
proof -
  show "lastWorkMode (stop now False m) = lastWorkMode m"
    by (cases "now - currentSessionStart m < 60000")
       (simp_all add: stop_short stop_long_no_ask assms eff_defs reset_simps stopTimer_simps
          finalizeSession_simps)
  show "lastWorkCardId (stop now False m) = lastWorkCardId m"
    by (cases "now - currentSessionStart m < 60000")
       (simp_all add: stop_short stop_long_no_ask assms eff_defs reset_simps stopTimer_simps
          finalizeSession_simps)
  show "state (stop now False m) =
           \<lparr>running = False, mode = mode (state m), st_start = 0, elapsed = 0,
             targetCardId = targetCardId (state m)\<rparr>"
    by (cases "now - currentSessionStart m < 60000")
       (simp_all add: stop_short stop_long_no_ask assms eff_defs reset_simps stopTimer_simps
          finalizeSession_simps)
  show "shortBreakMs (stop now False m) = shortBreakMs m"
    by (cases "now - currentSessionStart m < 60000")
       (simp_all add: stop_short stop_long_no_ask assms eff_defs reset_simps stopTimer_simps
          finalizeSession_simps)
  show "longBreakMs (stop now False m) = longBreakMs m"
    by (cases "now - currentSessionStart m < 60000")
       (simp_all add: stop_short stop_long_no_ask assms eff_defs reset_simps stopTimer_simps
          finalizeSession_simps)
  show "longBreakInterval (stop now False m) = longBreakInterval m"
    by (cases "now - currentSessionStart m < 60000")
       (simp_all add: stop_short stop_long_no_ask assms eff_defs reset_simps stopTimer_simps
          finalizeSession_simps)
  show "pomodoroCount (stop now False m) = pomodoroCount m"
    by (cases "now - currentSessionStart m < 60000")
       (simp_all add: stop_short stop_long_no_ask assms eff_defs reset_simps stopTimer_simps
          finalizeSession_simps)
qed

lemma js_rem_zero_iff:
  assumes "1 \<le> k"
  shows "js_rem k n = Some 0 \<longleftrightarrow> k mod n = 0"
proof (cases "n = 0")
  case True
  with assms show ?thesis by (simp add: js_rem_def)
next
  case False
  have "\<bar>k\<bar> mod \<bar>n\<bar> = 0 \<longleftrightarrow> k mod n = 0"
    by (simp add: mod_eq_0_iff_dvd)
  with False assms show ?thesis by (simp add: js_rem_def)
qed

lemma completePomodoro_frame:
  assumes "running (state m)" and "\<not> falsy (targetCardId (state m))"
  shows "state (completePomodoro now m) =
           \<lparr>running = True, mode = Break, st_start = now, elapsed = 0,
             targetCardId = targetCardId (state m)\<rparr>"
    and "pomodoroCount (completePomodoro now m) = pomodoroCount m + 1"
    and "breakDurationMs (completePomodoro now m) =
           (if js_rem (pomodoroCount m + 1) (longBreakInterval m) = Some 0
            then longBreakMs m else shortBreakMs m)"
    and "lastWorkMode (completePomodoro now m) = lastWorkMode m"
    and "lastWorkCardId (completePomodoro now m) = lastWorkCardId m"
  using assms
  by (simp_all add: completePomodoro_def Let_def start_idle stop_no_ask_frame playEndSound_def)

lemma tick_completes:
  assumes "running (state m)" and "mode (state m) = Pomodoro"
    and "now - st_start (state m) + elapsed (state m) \<ge> pomodoroDefault m"
    and "\<not> falsy (targetCardId (state m))"
    and "0 < shortBreakMs m" and "0 < longBreakMs m"
  shows "tick now m = completePomodoro now (emit EvTick m)"
proof -
  let ?m1 = "emit EvTick m"
  have r1: "running (state ?m1)" "\<not> falsy (targetCardId (state ?m1))"
    using assms by (simp_all add: emit_def)
  have "0 < breakDurationMs (completePomodoro now ?m1)"
    using completePomodoro_frame(3) [OF r1, of now] assms(5,6) by (simp add: emit_def)
  then show ?thesis
    using assms(1,2,3) completePomodoro_frame(1) [OF r1, of now]
    by (simp add: tick_def Let_def emit_def)
qed

lemma skipBreak_frame:
  assumes "running (state m)" and "mode (state m) = Break"
  shows "state (skipBreak now m) =
           \<lparr>running = False, mode = lastWorkMode m, st_start = 0, elapsed = 0,
             targetCardId = lastWorkCardId m\<rparr>"
    and "logs (skipBreak now m) = logs m"
    and "stateManagers (skipBreak now m) = stateManagers m"
    and "currentAutoRound (skipBreak now m) = (if autoRounds m = 0 then 0 else currentAutoRound m)"
    and "0 < autoRounds m \<Longrightarrow> currentAutoRound m < autoRounds m \<Longrightarrow>
           last (effects (skipBreak now m)) = SetTimeout (NextRoundAfterSkip (lastWorkCardId m))"
  using assms
  by (simp_all add: skipBreak_def Let_def eff_defs reset_simps stopTimer_simps)

subsection \<open>Effects only grow\<close>

lemma extends_refl: "extends m m"
  by (simp add: extends_def)

lemma extends_trans [trans]: "extends a b \<Longrightarrow> extends b c \<Longrightarrow> extends a c"
  by (auto simp: extends_def)

lemma extends_eff:
  "extends m (emit e m)" "extends m (notify n m)" "extends m (playEndSound m)"
  "extends m (setTimeout d m)"
  by (simp_all add: extends_def eff_defs)

lemma extends_update:
  "extends m (m\<lparr>pomodoroCount := a\<rparr>)" "extends m (m\<lparr>currentAutoRound := b\<rparr>)"
  "extends m (m\<lparr>breakDurationMs := d\<rparr>)"
  by (simp_all add: extends_def)

lemma extends_start: "extends m (start now md c m)"
proof (cases "falsy c \<or> running (state m)")
  case True
  then show ?thesis by (auto simp: extends_def start_def notify_def)
next
  case False
  then show ?thesis by (simp add: extends_def start_idle)
qed

lemma extends_stop_no_ask: "extends m (stop now False m)"
proof (cases "running (state m)")
  case False
  then show ?thesis by (simp add: stop_def extends_def)
next
  case True
  then show ?thesis
    by (cases "now - currentSessionStart m < 60000")
       (simp_all add: extends_def stop_short stop_long_no_ask eff_defs reset_simps
          stopTimer_effects finalizeSession_simps)
qed

lemma extends_completePomodoro: "extends m (completePomodoro now m)"
proof -
  let ?m1 = "playEndSound (stop now False m)"
  let ?m2 = "?m1\<lparr>pomodoroCount := pomodoroCount ?m1 + 1\<rparr>"
  let ?m3 = "?m2\<lparr>currentAutoRound := currentAutoRound ?m2 + 1\<rparr>"
  let ?m4 = "?m3\<lparr>breakDurationMs :=
      (if js_rem (pomodoroCount ?m3) (longBreakInterval ?m3) = Some 0
       then longBreakMs ?m3 else shortBreakMs ?m3)\<rparr>"
  have "extends m ?m1"
    by (rule extends_trans [OF extends_stop_no_ask extends_eff(3)])
  also have "extends ?m1 ?m4"
    by (simp add: extends_def)
  also have "extends ?m4 (start now Break (targetCardId (state ?m4)) ?m4)"
    by (rule extends_start)
  finally show ?thesis
    by (simp add: completePomodoro_def Let_def)
qed

lemma extends_checkAndStartNextRound: "extends m (checkAndStartNextRound m)"
  by (simp add: checkAndStartNextRound_def extends_def eff_defs)

lemma extends_break_over:
  "extends m (checkAndStartNextRound (playEndSound (notify NoticeBreakOver (stop now False m))))"
proof -
  have "extends m (stop now False m)"
    by (rule extends_stop_no_ask)
  also have "extends (stop now False m) (notify NoticeBreakOver (stop now False m))"
    by (rule extends_eff)
  also have "extends (notify NoticeBreakOver (stop now False m))
      (playEndSound (notify NoticeBreakOver (stop now False m)))"
    by (rule extends_eff)
  also have "extends (playEndSound (notify NoticeBreakOver (stop now False m)))
      (checkAndStartNextRound (playEndSound (notify NoticeBreakOver (stop now False m))))"
    by (rule extends_checkAndStartNextRound)
  finally show ?thesis .
qed

lemma tick_running_effects:
  assumes "running (state m)"
  shows "\<exists>rest. effects (tick now m) = effects m @ Emit EvTick # rest"
proof -
  let ?m1 = "emit EvTick m"
  define m2 where "m2 =
    (if mode (state ?m1) = Pomodoro
     then (if now - st_start (state ?m1) + elapsed (state ?m1) \<ge> pomodoroDefault ?m1
           then completePomodoro now ?m1 else ?m1)
     else ?m1)"
  define m3 where "m3 =
    (if mode (state m2) = Break
     then (if now - st_start (state m2) + elapsed (state m2) \<ge> breakDurationMs m2
           then checkAndStartNextRound (playEndSound (notify NoticeBreakOver (stop now False m2)))
           else m2)
     else m2)"
  have t: "tick now m = m3"
    using assms unfolding tick_def Let_def m3_def m2_def by simp
  have "extends ?m1 m2"
    by (simp add: m2_def extends_completePomodoro extends_refl)
  also have "extends m2 m3"
    by (simp add: m3_def extends_break_over extends_refl)
  finally have "extends ?m1 (tick now m)"
    by (simp add: t)
  then show ?thesis
    by (auto simp: extends_def emit_def)
qed

subsection \<open>The concrete manager\<close>

lemma example_manager_simps:
  "state example_manager =
     \<lparr>running = False, mode = Stopwatch, st_start = 0, elapsed = 0, targetCardId = None\<rparr>"
  "logs example_manager = []"
  "stateManagers example_manager = example_boards"
  "effects example_manager = []"
  "autoRounds example_manager = 0"
  "currentAutoRound example_manager = 0"
  "pomodoroCount example_manager = 0"
  "pomodoroDefault example_manager = 1500000"
  "lastWorkMode example_manager = Pomodoro"
  "lastWorkCardId example_manager = None"
  "utcOffset example_manager = 0"
  by (simp_all add: example_manager_def new_manager_def updateSettings_def minutes_or_def
      number_or_def)

lemma start_example:
  "pomodoroDefault (start now md (Some ''A'') example_manager) = 1500000"
  "longBreakInterval (start now md (Some ''A'') example_manager) = 4"
  "shortBreakMs (start now md (Some ''A'') example_manager) = 300000"
  "longBreakMs (start now md (Some ''A'') example_manager) = 900000"
  "autoRounds (start now md (Some ''A'') example_manager) = 0"
  by (simp_all add: start_def Let_def emit_def falsy_def example_manager_def new_manager_def
      updateSettings_def minutes_or_def number_or_def applyTimerSettingsForCard_def
      resolveTimerSettingForCard_def example_boards_def contains_id_def local_or_def)

lemma example_break:
  "state (tick 1501000 (start 1000 Pomodoro (Some ''A'') example_manager)) =
     \<lparr>running = True, mode = Break, st_start = 1501000, elapsed = 0, targetCardId = Some ''A''\<rparr>"
  "lastWorkMode (tick 1501000 (start 1000 Pomodoro (Some ''A'') example_manager)) = Pomodoro"
  "lastWorkCardId (tick 1501000 (start 1000 Pomodoro (Some ''A'') example_manager)) = Some ''A''"
  "pomodoroCount (tick 1501000 (start 1000 Pomodoro (Some ''A'') example_manager)) = 1"
  "breakDurationMs (tick 1501000 (start 1000 Pomodoro (Some ''A'') example_manager)) = 300000"
proof -
  let ?m1 = "start 1000 Pomodoro (Some ''A'') example_manager"
  have s1: "state ?m1 = \<lparr>running = True, mode = Pomodoro, st_start = 1000, elapsed = 0,
      targetCardId = Some ''A''\<rparr>"
    "lastWorkMode ?m1 = Pomodoro" "lastWorkCardId ?m1 = Some ''A''" "pomodoroCount ?m1 = 0"
    by (simp_all add: start_idle falsy_simps example_manager_simps)
  have t: "tick 1501000 ?m1 = completePomodoro 1501000 (emit EvTick ?m1)"
    by (rule tick_completes) (simp_all add: s1 start_example falsy_simps)
  have r: "running (state (emit EvTick ?m1))" "\<not> falsy (targetCardId (state (emit EvTick ?m1)))"
    by (simp_all add: emit_def s1 falsy_simps)
  show "state (tick 1501000 ?m1) =
     \<lparr>running = True, mode = Break, st_start = 1501000, elapsed = 0, targetCardId = Some ''A''\<rparr>"
    by (simp add: t completePomodoro_frame [OF r]) (simp add: emit_def s1)
  show "lastWorkMode (tick 1501000 ?m1) = Pomodoro"
    by (simp add: t completePomodoro_frame [OF r]) (simp add: emit_def s1)
  show "lastWorkCardId (tick 1501000 ?m1) = Some ''A''"
    by (simp add: t completePomodoro_frame [OF r]) (simp add: emit_def s1)
  show "pomodoroCount (tick 1501000 ?m1) = 1"
    by (simp add: t completePomodoro_frame [OF r]) (simp add: emit_def s1)
  show "breakDurationMs (tick 1501000 ?m1) = 300000"
    by (simp add: t completePomodoro_frame [OF r])
       (simp add: emit_def s1 start_example js_rem_def)
qed

subsection \<open>Automatic rounds\<close>

text \<open>
  The loop of \<^verbatim>\<open>appendSessionToMarkdown\<close> never goes past the first state manager:
  \<^verbatim>\<open>appendToBoard\<close> returns a board for it whether or not the card is there.
\<close>

lemma append_loop_first:
  "append_loop cid line (sm # sms) = setState (traverseLanes cid line (sm_state sm)) sm # sms"
  by (simp add: appendToBoard_def same_array_def)

lemma append_keeps_settings:
  "map getSetting (appendSessionToMarkdown off c st en dur sms) = map getSetting sms"
proof (cases "falsy c")
  case True
  then show ?thesis by (simp add: appendSessionToMarkdown_def)
next
  case False
  then show ?thesis
    by (cases sms) (simp_all add: appendSessionToMarkdown_def append_loop_first setState_def
        del: append_loop.simps(2))
qed

lemma resolve_loop_no_local:
  "\<forall>g \<in> set (map getSetting sms). g k = None \<Longrightarrow> resolve_loop cid k sms = None"
  by (induction sms) simp_all

lemma apply_autoRounds_no_local:
  assumes "\<forall>g \<in> set (map getSetting (stateManagers m)). g TimerAutoRounds = None"
  shows "autoRounds (applyTimerSettingsForCard c m) = number_or (settings m TimerAutoRounds) 0"
  using resolve_loop_no_local [OF assms]
  by (simp add: applyTimerSettingsForCard_def updateSettings_def Let_def
      resolveTimerSettingForCard_def)

lemma apply_settings_kept: "settings (applyTimerSettingsForCard c m) = settings m"
  by (simp add: applyTimerSettingsForCard_def updateSettings_def Let_def)

lemma stop_no_ask_rounds:
  assumes "running (state m)"
  shows "currentAutoRound (stop now False m) = (if autoRounds m = 0 then 0 else currentAutoRound m)"
    and "settings (stop now False m) = settings m"
    and "map getSetting (stateManagers (stop now False m)) = map getSetting (stateManagers m)"
proof -
  show "currentAutoRound (stop now False m) = (if autoRounds m = 0 then 0 else currentAutoRound m)"
    by (cases "now - currentSessionStart m < 60000")
       (simp_all add: stop_short stop_long_no_ask assms eff_defs reset_simps stopTimer_simps
          finalizeSession_simps)
  show "settings (stop now False m) = settings m"
    by (cases "now - currentSessionStart m < 60000")
       (simp_all add: stop_short stop_long_no_ask assms eff_defs reset_def stopTimer_def
          finalizeSession_def Let_def)
  show "map getSetting (stateManagers (stop now False m)) = map getSetting (stateManagers m)"
    by (cases "now - currentSessionStart m < 60000")
       (simp_all add: stop_short stop_long_no_ask assms eff_defs reset_simps stopTimer_simps
          finalizeSession_simps append_keeps_settings)
qed

lemma completePomodoro_rounds:
  assumes "running (state m)" and "\<not> falsy (targetCardId (state m))"
    and "\<forall>g \<in> set (map getSetting (stateManagers m)). g TimerAutoRounds = None"
  shows "currentAutoRound (completePomodoro now m) =
           (if autoRounds m = 0 then 0 else currentAutoRound m) + 1"
    and "autoRounds (completePomodoro now m) = number_or (settings m TimerAutoRounds) 0"
proof -
  let ?m3 = "(playEndSound (stop now False m))
      \<lparr>pomodoroCount := pomodoroCount (playEndSound (stop now False m)) + 1,
        currentAutoRound := currentAutoRound (playEndSound (stop now False m)) + 1\<rparr>"
  let ?m4 = "?m3\<lparr>breakDurationMs :=
      (if js_rem (pomodoroCount ?m3) (longBreakInterval ?m3) = Some 0
       then longBreakMs ?m3 else shortBreakMs ?m3)\<rparr>"
  have c: "completePomodoro now m = start now Break (targetCardId (state ?m4)) ?m4"
    by (simp add: completePomodoro_def Let_def)
  have t: "targetCardId (state ?m4) = targetCardId (state m)" "\<not> running (state ?m4)"
    by (simp_all add: playEndSound_def stop_no_ask_frame(1) [OF assms(1)])
  have g: "\<forall>g \<in> set (map getSetting (stateManagers ?m4)). g TimerAutoRounds = None"
    using assms(3) stop_no_ask_rounds(3) [OF assms(1), of now] by (simp add: playEndSound_def)
  have s: "settings ?m4 = settings m"
    by (simp add: playEndSound_def stop_no_ask_rounds(2) [OF assms(1)])
  have r: "currentAutoRound ?m4 = (if autoRounds m = 0 then 0 else currentAutoRound m) + 1"
    by (simp add: playEndSound_def stop_no_ask_rounds(1) [OF assms(1)])
  show "currentAutoRound (completePomodoro now m) =
           (if autoRounds m = 0 then 0 else currentAutoRound m) + 1"
    unfolding c using assms(2) t r by (simp add: start_idle(7))
  show "autoRounds (completePomodoro now m) = number_or (settings m TimerAutoRounds) 0"
    unfolding c using assms(2) t apply_autoRounds_no_local [OF g] s
    by (simp add: start_def Let_def emit_def)
qed

lemma auto_manager_simps:
  "state auto_manager =
     \<lparr>running = False, mode = Stopwatch, st_start = 0, elapsed = 0, targetCardId = None\<rparr>"
  "stateManagers auto_manager = example_boards"
  "settings auto_manager = auto_settings"
  "currentAutoRound auto_manager = 0"
  "pomodoroCount auto_manager = 0"
  "autoRounds auto_manager = 2"
  "lastWorkCardId auto_manager = None"
  by (simp_all add: auto_manager_def new_manager_def updateSettings_def minutes_or_def
      number_or_def auto_settings_def)

lemma example_boards_no_local:
  "\<forall>g \<in> set (map getSetting example_boards). g k = None"
  by (simp add: example_boards_def)

lemma start_settings_kept:
  assumes "\<not> falsy c" and "\<not> running (state m)"
  shows "settings (start now md c m) = settings m"
    and "autoRounds (start now md c m) = autoRounds (applyTimerSettingsForCard c m)"
    and "pomodoroDefault (start now md c m) = pomodoroDefault (applyTimerSettingsForCard c m)"
    and "shortBreakMs (start now md c m) = shortBreakMs (applyTimerSettingsForCard c m)"
    and "longBreakMs (start now md c m) = longBreakMs (applyTimerSettingsForCard c m)"
  using assms by (simp_all add: start_def Let_def emit_def apply_settings_kept)

lemma auto_start:
  "state (start 1000 Pomodoro (Some ''A'') auto_manager) =
     \<lparr>running = True, mode = Pomodoro, st_start = 1000, elapsed = 0, targetCardId = Some ''A''\<rparr>"
  "lastWorkMode (start 1000 Pomodoro (Some ''A'') auto_manager) = Pomodoro"
  "lastWorkCardId (start 1000 Pomodoro (Some ''A'') auto_manager) = Some ''A''"
  "currentAutoRound (start 1000 Pomodoro (Some ''A'') auto_manager) = 0"
  "autoRounds (start 1000 Pomodoro (Some ''A'') auto_manager) = 2"
  "settings (start 1000 Pomodoro (Some ''A'') auto_manager) = auto_settings"
  "stateManagers (start 1000 Pomodoro (Some ''A'') auto_manager) = example_boards"
  "pomodoroDefault (start 1000 Pomodoro (Some ''A'') auto_manager) = 1500000"
proof -
  have h: "\<not> falsy (Some ''A'')" "\<not> running (state auto_manager)"
    by (simp_all add: falsy_simps auto_manager_simps)
  have g: "\<forall>g \<in> set (map getSetting (stateManagers auto_manager)). g TimerAutoRounds = None"
    by (simp add: auto_manager_simps example_boards_no_local)
  show "state (start 1000 Pomodoro (Some ''A'') auto_manager) =
     \<lparr>running = True, mode = Pomodoro, st_start = 1000, elapsed = 0, targetCardId = Some ''A''\<rparr>"
    "lastWorkMode (start 1000 Pomodoro (Some ''A'') auto_manager) = Pomodoro"
    "lastWorkCardId (start 1000 Pomodoro (Some ''A'') auto_manager) = Some ''A''"
    "currentAutoRound (start 1000 Pomodoro (Some ''A'') auto_manager) = 0"
    "stateManagers (start 1000 Pomodoro (Some ''A'') auto_manager) = example_boards"
    by (simp_all add: start_idle [OF h] auto_manager_simps)
  show "autoRounds (start 1000 Pomodoro (Some ''A'') auto_manager) = 2"
    by (simp add: start_settings_kept(2) [OF h] apply_autoRounds_no_local [OF g]
        auto_manager_simps auto_settings_def number_or_def)
  show "settings (start 1000 Pomodoro (Some ''A'') auto_manager) = auto_settings"
    by (simp add: start_settings_kept(1) [OF h] auto_manager_simps)
  show "pomodoroDefault (start 1000 Pomodoro (Some ''A'') auto_manager) = 1500000"
    by (simp add: start_settings_kept(3) [OF h] applyTimerSettingsForCard_def falsy_simps Let_def
        resolveTimerSettingForCard_def auto_manager_simps example_boards_def contains_id_def
        local_or_def minutes_or_def auto_settings_def)
qed

lemma auto_break:
  "state (tick 1501000 (start 1000 Pomodoro (Some ''A'') auto_manager)) =
     \<lparr>running = True, mode = Break, st_start = 1501000, elapsed = 0, targetCardId = Some ''A''\<rparr>"
  "lastWorkMode (tick 1501000 (start 1000 Pomodoro (Some ''A'') auto_manager)) = Pomodoro"
  "lastWorkCardId (tick 1501000 (start 1000 Pomodoro (Some ''A'') auto_manager)) = Some ''A''"
  "autoRounds (tick 1501000 (start 1000 Pomodoro (Some ''A'') auto_manager)) = 2"
  "currentAutoRound (tick 1501000 (start 1000 Pomodoro (Some ''A'') auto_manager)) = 1"
proof -
  let ?m1 = "start 1000 Pomodoro (Some ''A'') auto_manager"
  have h: "\<not> falsy (Some ''A'')" "\<not> running (state auto_manager)"
    by (simp_all add: falsy_simps auto_manager_simps)
  have t: "tick 1501000 ?m1 = completePomodoro 1501000 (emit EvTick ?m1)"
    by (rule tick_completes) (simp_all add: auto_start falsy_simps start_durations [OF h])
  have r: "running (state (emit EvTick ?m1))" "\<not> falsy (targetCardId (state (emit EvTick ?m1)))"
    "\<forall>g \<in> set (map getSetting (stateManagers (emit EvTick ?m1))). g TimerAutoRounds = None"
    by (simp_all add: emit_def auto_start falsy_simps example_boards_no_local)
  show "state (tick 1501000 ?m1) =
     \<lparr>running = True, mode = Break, st_start = 1501000, elapsed = 0, targetCardId = Some ''A''\<rparr>"
    by (simp add: t completePomodoro_frame [OF r(1,2)]) (simp add: emit_def auto_start)
  show "lastWorkMode (tick 1501000 ?m1) = Pomodoro"
    by (simp add: t completePomodoro_frame [OF r(1,2)]) (simp add: emit_def auto_start)
  show "lastWorkCardId (tick 1501000 ?m1) = Some ''A''"
    by (simp add: t completePomodoro_frame [OF r(1,2)]) (simp add: emit_def auto_start)
  show "autoRounds (tick 1501000 ?m1) = 2"
    by (simp add: t completePomodoro_rounds [OF r]) (simp add: emit_def auto_start
        auto_settings_def number_or_def)
  show "currentAutoRound (tick 1501000 ?m1) = 1"
    by (simp add: t completePomodoro_rounds [OF r]) (simp add: emit_def auto_start)
qed

lemma example_break_rounds:
  "autoRounds (tick 1501000 (start 1000 Pomodoro (Some ''A'') example_manager)) = 0"
proof -
  let ?m1 = "start 1000 Pomodoro (Some ''A'') example_manager"
  have h: "\<not> falsy (Some ''A'')" "\<not> running (state example_manager)"
    by (simp_all add: falsy_simps example_manager_simps)
  have s1: "state ?m1 = \<lparr>running = True, mode = Pomodoro, st_start = 1000, elapsed = 0,
      targetCardId = Some ''A''\<rparr>" "stateManagers ?m1 = example_boards"
    by (simp_all add: start_idle [OF h] example_manager_simps)
  have s2: "settings ?m1 = (\<lambda>k. None)"
    unfolding start_settings_kept(1) [OF h]
    by (simp add: example_manager_def new_manager_def updateSettings_def)
  have t: "tick 1501000 ?m1 = completePomodoro 1501000 (emit EvTick ?m1)"
    by (rule tick_completes) (simp_all add: s1 start_example falsy_simps)
  have r: "running (state (emit EvTick ?m1))" "\<not> falsy (targetCardId (state (emit EvTick ?m1)))"
    "\<forall>g \<in> set (map getSetting (stateManagers (emit EvTick ?m1))). g TimerAutoRounds = None"
    by (simp_all add: emit_def s1 falsy_simps example_boards_no_local)
  show ?thesis
    by (simp add: t completePomodoro_rounds [OF r]) (simp add: emit_def s2 number_or_def)
qed

section \<open>Skipping a break\<close>

lemma skipBreak_effects:
  assumes "running (state m)" and "mode (state m) = Break"
  shows "effects (skipBreak now m) =
           effects m @ [Emit EvChange, Emit EvChange, Emit EvChange, Notify NoticeBreakSkipped]
             @ (if 0 < autoRounds m
                then [SetTimeout (if currentAutoRound m < autoRounds m
                                  then NextRoundAfterSkip (lastWorkCardId m)
                                  else RoundsDoneAfterSkip)]
                else [])"
  using assms
  by (simp add: skipBreak_def Let_def eff_defs reset_simps stopTimer_simps stopTimer_effects)

lemma skipBreak_deferred:
  assumes "running (state m)" and "mode (state m) = Break"
  shows "currentAutoRound (run_deferred later RoundsDoneAfterSkip (skipBreak now m)) = 0"
    and "\<not> falsy (lastWorkCardId m) \<Longrightarrow>
           state (run_deferred later (NextRoundAfterSkip (lastWorkCardId m)) (skipBreak now m)) =
             \<lparr>running = True, mode = Pomodoro, st_start = later, elapsed = 0,
               targetCardId = lastWorkCardId m\<rparr>"
proof -
  show "currentAutoRound (run_deferred later RoundsDoneAfterSkip (skipBreak now m)) = 0"
    by (simp add: Let_def notify_def)
  assume c: "\<not> falsy (lastWorkCardId m)"
  have n: "\<not> running (state (skipBreak now m))" "elapsed (state (skipBreak now m)) = 0"
    by (simp_all add: skipBreak_frame(1) [OF assms])
  show "state (run_deferred later (NextRoundAfterSkip (lastWorkCardId m)) (skipBreak now m)) =
             \<lparr>running = True, mode = Pomodoro, st_start = later, elapsed = 0,
               targetCardId = lastWorkCardId m\<rparr>"
    using start_idle(1) [OF c n(1), of later Pomodoro] n(2)
    by (simp add: Let_def notify_def)
qed

text \<open>
  Claim C1, as the code has it. When the timer runs in mode break, \<^verbatim>\<open>skipBreak\<close> leaves the
  state machine idle (\<^verbatim>\<open>running = false\<close>, start and elapsed time 0), with the mode set to
  \<^verbatim>\<open>lastWorkMode\<close> and the target card to \<^verbatim>\<open>lastWorkCardId\<close>; it adds no session to the log
  and changes no document; it keeps \<^verbatim>\<open>currentAutoRound\<close> unless \<^verbatim>\<open>autoRounds\<close> is 0, when it
  sets it to 0. What it emits is exactly three change events and the notice, followed by one
  scheduled callback if and only if \<^verbatim>\<open>autoRounds\<close> is positive: the deferred start of a
  pomodoro on the last work card when \<^verbatim>\<open>currentAutoRound < autoRounds\<close>, and otherwise the
  deferred reset of \<^verbatim>\<open>currentAutoRound\<close> to 0. With \<^verbatim>\<open>autoRounds = 0\<close> nothing is scheduled.
  The last two conjuncts say what the two callbacks do when they run: the reset leaves
  \<^verbatim>\<open>currentAutoRound\<close> at 0, and the deferred start, for a card id that is not empty, leaves
  a running pomodoro on the last work card.
\<close>

theorem skipBreak_resets_to_last_work:
  assumes "running (state m)" and "mode (state m) = Break"
  shows "state (skipBreak now m) =
           \<lparr>running = False, mode = lastWorkMode m, st_start = 0, elapsed = 0,
             targetCardId = lastWorkCardId m\<rparr>
     \<and> logs (skipBreak now m) = logs m
     \<and> stateManagers (skipBreak now m) = stateManagers m
     \<and> currentAutoRound (skipBreak now m) = (if autoRounds m = 0 then 0 else currentAutoRound m)
     \<and> effects (skipBreak now m) =
         effects m @ [Emit EvChange, Emit EvChange, Emit EvChange, Notify NoticeBreakSkipped]
           @ (if 0 < autoRounds m
              then [SetTimeout (if currentAutoRound m < autoRounds m
                                then NextRoundAfterSkip (lastWorkCardId m)
                                else RoundsDoneAfterSkip)]
              else [])
     \<and> currentAutoRound (run_deferred later RoundsDoneAfterSkip (skipBreak now m)) = 0
     \<and> (\<not> falsy (lastWorkCardId m) \<longrightarrow>
          state (run_deferred later (NextRoundAfterSkip (lastWorkCardId m)) (skipBreak now m)) =
            \<lparr>running = True, mode = Pomodoro, st_start = later, elapsed = 0,
              targetCardId = lastWorkCardId m\<rparr>)"
  using skipBreak_frame(1-4) [OF assms] skipBreak_effects [OF assms]
    skipBreak_deferred [OF assms]
  by simp

text \<open>
  The theorem at the scenario of the specification, a pomodoro on card A started at 1000 ms,
  completed by the tick at 1501000 ms, its break skipped at 1502000 ms: once with two automatic
  rounds, where the next round is scheduled and starts a pomodoro on A when it runs at
  1503000 ms, and once with automatic rounds off, where nothing is scheduled.
\<close>

theorem skipBreak_resets_to_last_work_witness:
  "running (state (tick 1501000 (start 1000 Pomodoro (Some ''A'') auto_manager)))
   \<and> mode (state (tick 1501000 (start 1000 Pomodoro (Some ''A'') auto_manager))) = Break
   \<and> state (skipBreak 1502000 (tick 1501000 (start 1000 Pomodoro (Some ''A'') auto_manager))) =
       \<lparr>running = False, mode = Pomodoro, st_start = 0, elapsed = 0, targetCardId = Some ''A''\<rparr>
   \<and> logs (skipBreak 1502000 (tick 1501000 (start 1000 Pomodoro (Some ''A'') auto_manager))) =
       logs (tick 1501000 (start 1000 Pomodoro (Some ''A'') auto_manager))
   \<and> currentAutoRound
        (skipBreak 1502000 (tick 1501000 (start 1000 Pomodoro (Some ''A'') auto_manager))) = 1
   \<and> effects (skipBreak 1502000 (tick 1501000 (start 1000 Pomodoro (Some ''A'') auto_manager))) =
       effects (tick 1501000 (start 1000 Pomodoro (Some ''A'') auto_manager))
         @ [Emit EvChange, Emit EvChange, Emit EvChange, Notify NoticeBreakSkipped,
            SetTimeout (NextRoundAfterSkip (Some ''A''))]
   \<and> \<not> falsy (Some ''A'')
   \<and> state (run_deferred 1503000 (NextRoundAfterSkip (Some ''A''))
        (skipBreak 1502000 (tick 1501000 (start 1000 Pomodoro (Some ''A'') auto_manager)))) =
       \<lparr>running = True, mode = Pomodoro, st_start = 1503000, elapsed = 0,
         targetCardId = Some ''A''\<rparr>
   \<and> running (state (tick 1501000 (start 1000 Pomodoro (Some ''A'') example_manager)))
   \<and> mode (state (tick 1501000 (start 1000 Pomodoro (Some ''A'') example_manager))) = Break
   \<and> effects (skipBreak 1502000 (tick 1501000 (start 1000 Pomodoro (Some ''A'') example_manager))) =
       effects (tick 1501000 (start 1000 Pomodoro (Some ''A'') example_manager))
         @ [Emit EvChange, Emit EvChange, Emit EvChange, Notify NoticeBreakSkipped]"
proof -
  let ?mb = "tick 1501000 (start 1000 Pomodoro (Some ''A'') auto_manager)"
  let ?me = "tick 1501000 (start 1000 Pomodoro (Some ''A'') example_manager)"
  have h: "running (state ?mb)" "mode (state ?mb) = Break"
    by (simp_all add: auto_break)
  have k: "running (state ?me)" "mode (state ?me) = Break"
    by (simp_all add: example_break)
  have z: "autoRounds ?me = 0"
    by (rule example_break_rounds)
  from skipBreak_resets_to_last_work [OF h, of 1502000 1503000]
    skipBreak_resets_to_last_work [OF k, of 1502000 1503000] h k z
  show ?thesis
    by (simp add: auto_break falsy_simps)
qed

text \<open>
  Claim C1 as stated asks for a running state after \<^verbatim>\<open>skipBreak\<close>; in the same scenario the
  timer is not running.
\<close>

theorem skipBreak_leaves_idle_counterexample:
  "running (state (tick 1501000 (start 1000 Pomodoro (Some ''A'') example_manager)))
   \<and> mode (state (tick 1501000 (start 1000 Pomodoro (Some ''A'') example_manager))) = Break
   \<and> \<not> running (state (skipBreak 1502000
          (tick 1501000 (start 1000 Pomodoro (Some ''A'') example_manager))))"
proof -
  let ?mb = "tick 1501000 (start 1000 Pomodoro (Some ''A'') example_manager)"
  have h: "running (state ?mb)" "mode (state ?mb) = Break"
    by (simp_all add: example_break)
  from skipBreak_frame(1) [OF h, of 1502000] h show ?thesis
    by simp
qed

section \<open>Switching cards while the timer runs\<close>

lemma toggle_switch_frame:
  assumes "running (state m)" and "\<not> falsy c" and "c \<noteq> targetCardId (state m)"
  shows "logs (toggle now md c m) = logs m @
           [\<lparr>cardId = targetCardId (state m),
             cardTitle = getCardTitle (stateManagers m) (targetCardId (state m)),
             fs_mode = mode (state m),
             fs_start = currentSessionStart m, fs_end = now,
             duration = Num (now - currentSessionStart m)\<rparr>]"
    and "stateManagers (toggle now md c m) =
           appendSessionToMarkdown (utcOffset m) (targetCardId (state m)) (currentSessionStart m)
             now (now - currentSessionStart m) (stateManagers m)"
    and "state (toggle now md c m) = (state m)\<lparr>targetCardId := c\<rparr>"
    and "currentSessionStart (toggle now md c m) = now"
    and "pomodoroDefault (toggle now md c m) = pomodoroDefault m"
    and "breakDurationMs (toggle now md c m) = breakDurationMs m"
    and "shortBreakMs (toggle now md c m) = shortBreakMs m"
    and "longBreakMs (toggle now md c m) = longBreakMs m"
    and "effects (toggle now md c m) = effects m @ [Emit EvLog, Emit EvChange]"
  using assms by (simp_all add: toggle_def Let_def emit_def)

lemma updateItems_absent:
  "\<not> item_has_id cid it \<Longrightarrow> updateItem cid line it = it"
  "\<not> items_have_id cid its \<Longrightarrow> updateItems cid line its = its"
  by (induction cid line it and cid line its rule: updateItem_updateItems.induct)
     (auto simp: same_array_def)

lemma traverseLanes_absent:
  assumes "\<forall>lane \<in> set board. \<not> items_have_id cid (lane_children lane)"
  shows "traverseLanes cid line board = board"
  using assms by (simp add: traverseLanes_def same_array_def updateItems_absent map_idI)

lemma append_absent_from_first_board:
  assumes "\<not> falsy c"
    and "\<forall>lane \<in> set (sm_state sm). \<not> items_have_id (the c) (lane_children lane)"
  shows "appendSessionToMarkdown off c st en dur (sm # sms) = sm # sms"
  using assms
  by (simp add: appendSessionToMarkdown_def appendToBoard_def same_array_def
      traverseLanes_absent setState_def)

lemma asc_nonempty: "asc (x # xs) \<noteq> []"
  by (simp add: asc_def)

text \<open>
  Claim C2, at an input where the code departs from it. With the boards \<open>two_boards\<close>, a
  stopwatch is started on card A (on the second board) at 1000 ms and \<^verbatim>\<open>toggle\<close> is called for
  card B at 121000 ms. The session of 120000 ms for card A is appended to the in-memory log,
  but no line is written to the body of card A: the documents are as they were.
\<close>

theorem toggle_switch_misses_second_board:
  "running (state (start 1000 Stopwatch (Some ''A'') (new_manager (\<lambda>k. None) two_boards 0)))
   \<and> targetCardId (state (start 1000 Stopwatch (Some ''A'') (new_manager (\<lambda>k. None) two_boards 0)))
       = Some ''A''
   \<and> logs (toggle 121000 Stopwatch (Some ''B'')
        (start 1000 Stopwatch (Some ''A'') (new_manager (\<lambda>k. None) two_boards 0))) =
       [\<lparr>cardId = Some ''A'', cardTitle = Some (asc ''Task A''), fs_mode = Stopwatch,
         fs_start = 1000, fs_end = 121000, duration = Num 120000\<rparr>]
   \<and> stateManagers (toggle 121000 Stopwatch (Some ''B'')
        (start 1000 Stopwatch (Some ''A'') (new_manager (\<lambda>k. None) two_boards 0))) = two_boards"
proof -
  let ?mz = "new_manager (\<lambda>k. None) two_boards 0"
  let ?m = "start 1000 Stopwatch (Some ''A'') ?mz"
  have m0: "\<not> running (state ?mz)" "logs ?mz = []" "stateManagers ?mz = two_boards"
    "elapsed (state ?mz) = 0" "utcOffset ?mz = 0"
    by (simp_all add: new_manager_def updateSettings_def)
  have s: "state ?m = \<lparr>running = True, mode = Stopwatch, st_start = 1000, elapsed = 0,
      targetCardId = Some ''A''\<rparr>" "currentSessionStart ?m = 1000" "logs ?m = []"
    "stateManagers ?m = two_boards"
    using m0 by (simp_all add: start_idle falsy_simps)
  have u: "utcOffset ?m = 0"
    using m0 by (simp add: start_def falsy_simps Let_def emit_def apply_simps)
  have t: "getCardTitle two_boards (Some ''A'') = Some (asc ''Task A'')"
    by (simp add: getCardTitle_def falsy_simps two_boards_def asc_nonempty)
  have a: "appendSessionToMarkdown 0 (Some ''A'') 1000 121000 (121000 - 1000) two_boards = two_boards"
    unfolding two_boards_def
    by (rule append_absent_from_first_board) (simp_all add: falsy_simps)
  have h: "running (state ?m)" "\<not> falsy (Some ''B'')" "Some ''B'' \<noteq> targetCardId (state ?m)"
    by (simp_all add: s falsy_simps)
  show ?thesis
    using toggle_switch_frame(1,2) [OF h, of 121000 Stopwatch] s t a u by simp
qed

section \<open>Stopping within the first minute\<close>

text \<open>
  Claim C3. A \<^verbatim>\<open>stop\<close> on a running timer less than 60000 ms after \<^verbatim>\<open>currentSessionStart\<close>,
  with or without the stop-reason prompt asked for, adds no session to the log, changes no
  document, and resets the state machine to idle with the same mode and target card;
  \<^verbatim>\<open>currentAutoRound\<close> is kept unless \<^verbatim>\<open>autoRounds\<close> is 0, when it is set to 0.
\<close>

theorem stop_discards_short_session:
  assumes "running (state m)" and "now - currentSessionStart m < 60000"
  shows "logs (stop now askReason m) = logs m
     \<and> stateManagers (stop now askReason m) = stateManagers m
     \<and> state (stop now askReason m) =
         \<lparr>running = False, mode = mode (state m), st_start = 0, elapsed = 0,
           targetCardId = targetCardId (state m)\<rparr>
     \<and> currentAutoRound (stop now askReason m) =
         (if autoRounds m = 0 then 0 else currentAutoRound m)"
  by (simp add: stop_short [OF assms] eff_defs reset_simps stopTimer_simps)

text \<open>A stopwatch on card A started at 1000 ms and stopped at 31000 ms.\<close>

theorem stop_discards_short_session_witness:
  "running (state (start 1000 Stopwatch (Some ''A'') example_manager))
   \<and> 31000 - currentSessionStart (start 1000 Stopwatch (Some ''A'') example_manager) < 60000
   \<and> logs (stop 31000 True (start 1000 Stopwatch (Some ''A'') example_manager)) = []
   \<and> stateManagers (stop 31000 True (start 1000 Stopwatch (Some ''A'') example_manager)) =
       example_boards
   \<and> state (stop 31000 True (start 1000 Stopwatch (Some ''A'') example_manager)) =
       \<lparr>running = False, mode = Stopwatch, st_start = 0, elapsed = 0,
         targetCardId = Some ''A''\<rparr>
   \<and> currentAutoRound (stop 31000 True (start 1000 Stopwatch (Some ''A'') example_manager)) = 0"
proof -
  let ?m = "start 1000 Stopwatch (Some ''A'') example_manager"
  have r: "running (state ?m)"
    by (simp add: start_idle falsy_simps example_manager_simps)
  have c: "31000 - currentSessionStart ?m < 60000"
    by (simp add: start_idle falsy_simps example_manager_simps)
  from stop_discards_short_session [OF r c, of True] r c show ?thesis
    by (simp add: start_idle start_example falsy_simps example_manager_simps)
qed

section \<open>Starting\<close>

text \<open>
  The three cases of \<^verbatim>\<open>start(mode, cardId)\<close>. It only raises a notice when the card id is
  absent or empty, does nothing when the flag \<^verbatim>\<open>running\<close> is set, and otherwise makes the state
  running in the given mode on the given card with \<^verbatim>\<open>state.start = now\<close> and
  \<^verbatim>\<open>currentSessionStart = now\<close>; \<^verbatim>\<open>lastWorkMode\<close> and \<^verbatim>\<open>lastWorkCardId\<close> are recorded exactly
  when the mode is pomodoro or stopwatch. No branch assigns \<^verbatim>\<open>state.elapsed\<close>.
\<close>

lemma start_cases:
  "(falsy c \<longrightarrow> start now md c m = notify NoticeSelectCard m)
   \<and> (\<not> falsy c \<and> running (state m) \<longrightarrow> start now md c m = m)
   \<and> (\<not> falsy c \<and> \<not> running (state m) \<longrightarrow>
        state (start now md c m) =
          \<lparr>running = True, mode = md, st_start = now, elapsed = elapsed (state m),
            targetCardId = c\<rparr>
        \<and> currentSessionStart (start now md c m) = now
        \<and> lastWorkMode (start now md c m) =
            (if md = Pomodoro \<or> md = Stopwatch then md else lastWorkMode m)
        \<and> lastWorkCardId (start now md c m) =
            (if md = Pomodoro \<or> md = Stopwatch then c else lastWorkCardId m))"
  by (simp add: start_falsy start_running start_idle)

text \<open>
  A stop of a session of a minute or more that asks for the reason pauses the clock and opens
  the prompt; until the prompt is answered the flag \<^verbatim>\<open>running\<close> is false and \<^verbatim>\<open>state.elapsed\<close>
  holds the time of the paused session.
\<close>

lemma stop_long_ask:
  assumes "running (state m)" and "\<not> now - currentSessionStart m < 60000"
  shows "state (stop now True m) =
           (state m)\<lparr>elapsed := elapsed (state m) + (now - st_start (state m)), running := False\<rparr>"
    and "logs (stop now True m) = logs m"
    and "stateManagers (stop now True m) = stateManagers m"
    and "currentSessionStart (stop now True m) = currentSessionStart m"
    and "effects (stop now True m) = effects m @ [Emit EvChange, OpenStopReasonModal]"
  using assms by (simp_all add: stop_def Let_def stopTimer_def emit_def)

lemma stopReasonSelected_logs:
  "logs (stopReasonSelected now reason m) = logs m @
     [\<lparr>cardId = targetCardId (state m),
       cardTitle = getCardTitle (stateManagers m) (targetCardId (state m)),
       fs_mode = mode (state m),
       fs_start = currentSessionStart m, fs_end = now,
       duration = Num (now - currentSessionStart m)\<rparr>]"
  by (simp add: stopReasonSelected_def finalizeSession_simps emit_def notify_def)

lemma example_title_A: "getCardTitle example_boards (Some ''A'') = Some (asc ''Task A'')"
  by (simp add: getCardTitle_def falsy_simps example_boards_def asc_nonempty)

text \<open>
  Claim C4, at an input where the code departs from it. A stopwatch on card A is started at
  1000 ms and stopped at 71000 ms: the stop pauses the clock with 70000 ms elapsed, clears
  \<^verbatim>\<open>running\<close> and opens the stop-reason prompt, with nothing logged yet. While the prompt is
  open, \<^verbatim>\<open>start('stopwatch', 'A')\<close> is called at 80000 ms. The guard of \<^verbatim>\<open>start\<close>, whose comment
  reads "Don't start if we're in the middle of stopping", tests \<^verbatim>\<open>state.running\<close>, which the
  pending stop has already cleared: the start goes through, the state is running with
  \<^verbatim>\<open>state.elapsed\<close> = 70000 and not 0, and the session anchor is moved to 80000. A reason chosen
  at 81000 ms then logs a session from 80000 to 81000 of 1000 ms; the 70 s of work before the
  stop are in no session.
\<close>

theorem start_over_pending_stop:
  "state (stop 71000 True (start 1000 Stopwatch (Some ''A'') example_manager)) =
     \<lparr>running = False, mode = Stopwatch, st_start = 1000, elapsed = 70000,
       targetCardId = Some ''A''\<rparr>
   \<and> effects (stop 71000 True (start 1000 Stopwatch (Some ''A'') example_manager)) =
       [Emit EvStart, Emit EvChange, Emit EvChange, OpenStopReasonModal]
   \<and> logs (stop 71000 True (start 1000 Stopwatch (Some ''A'') example_manager)) = []
   \<and> state (start 80000 Stopwatch (Some ''A'')
        (stop 71000 True (start 1000 Stopwatch (Some ''A'') example_manager))) =
       \<lparr>running = True, mode = Stopwatch, st_start = 80000, elapsed = 70000,
         targetCardId = Some ''A''\<rparr>
   \<and> currentSessionStart (start 80000 Stopwatch (Some ''A'')
        (stop 71000 True (start 1000 Stopwatch (Some ''A'') example_manager))) = 80000
   \<and> logs (stopReasonSelected 81000 (asc ''call'') (start 80000 Stopwatch (Some ''A'')
        (stop 71000 True (start 1000 Stopwatch (Some ''A'') example_manager)))) =
       [\<lparr>cardId = Some ''A'', cardTitle = Some (asc ''Task A''), fs_mode = Stopwatch,
         fs_start = 80000, fs_end = 81000, duration = Num 1000\<rparr>]"
proof -
  let ?m1 = "start 1000 Stopwatch (Some ''A'') example_manager"
  let ?m2 = "stop 71000 True ?m1"
  let ?m3 = "start 80000 Stopwatch (Some ''A'') ?m2"
  have h: "\<not> falsy (Some ''A'')" "\<not> running (state example_manager)"
    by (simp_all add: falsy_simps example_manager_simps)
  have s1: "state ?m1 = \<lparr>running = True, mode = Stopwatch, st_start = 1000, elapsed = 0,
      targetCardId = Some ''A''\<rparr>" "currentSessionStart ?m1 = 1000" "logs ?m1 = []"
    "stateManagers ?m1 = example_boards" "effects ?m1 = [Emit EvStart, Emit EvChange]"
    by (simp_all add: start_idle [OF h] example_manager_simps)
  have r1: "running (state ?m1)" "\<not> 71000 - currentSessionStart ?m1 < 60000"
    by (simp_all add: s1)
  have s2: "state ?m2 = \<lparr>running = False, mode = Stopwatch, st_start = 1000, elapsed = 70000,
      targetCardId = Some ''A''\<rparr>" "logs ?m2 = []" "stateManagers ?m2 = example_boards"
    "effects ?m2 = [Emit EvStart, Emit EvChange, Emit EvChange, OpenStopReasonModal]"
    by (simp_all add: stop_long_ask [OF r1] s1)
  have r2: "\<not> running (state ?m2)"
    by (simp add: s2)
  have s3: "state ?m3 = \<lparr>running = True, mode = Stopwatch, st_start = 80000, elapsed = 70000,
      targetCardId = Some ''A''\<rparr>" "currentSessionStart ?m3 = 80000" "logs ?m3 = []"
    "stateManagers ?m3 = example_boards"
    by (simp_all add: start_idle [OF h(1) r2] s2)
  have s4: "logs (stopReasonSelected 81000 (asc ''call'') ?m3) =
       [\<lparr>cardId = Some ''A'', cardTitle = Some (asc ''Task A''), fs_mode = Stopwatch,
         fs_start = 80000, fs_end = 81000, duration = Num 1000\<rparr>]"
    by (simp add: stopReasonSelected_logs s3 example_title_A)
  show ?thesis
    using s2 s3 s4 by simp
qed

section \<open>The tick\<close>

text \<open>
  Claim C8, as the code has it. A tick on a running timer emits the \<^verbatim>\<open>tick\<close> event first,
  whatever thresholds it then crosses; a tick on a timer that is not running emits nothing
  and changes nothing (the guard \<^verbatim>\<open>if (!this.state.running) return\<close> comes before the
  emission).
\<close>

theorem tick_emits_iff_running:
  "(running (state m) \<longrightarrow> (\<exists>rest. effects (tick now m) = effects m @ Emit EvTick # rest))
   \<and> (\<not> running (state m) \<longrightarrow> tick now m = m)"
  by (simp add: tick_running_effects) (simp add: tick_def)

text \<open>
  Both cases at concrete inputs: a running stopwatch, and the fresh manager.
\<close>

theorem tick_emits_iff_running_witness:
  "running (state (start 1000 Stopwatch (Some ''A'') example_manager))
   \<and> (\<exists>rest. effects (tick 2000 (start 1000 Stopwatch (Some ''A'') example_manager))
         = effects (start 1000 Stopwatch (Some ''A'') example_manager) @ Emit EvTick # rest)
   \<and> \<not> running (state example_manager) \<and> tick 2000 example_manager = example_manager"
  using tick_emits_iff_running [of "start 1000 Stopwatch (Some ''A'') example_manager" 2000]
    tick_emits_iff_running [of example_manager 2000]
  by (simp add: start_idle falsy_simps example_manager_simps)

text \<open>
  Claim C8 as stated has a \<^verbatim>\<open>tick\<close> event on every tick, running or not; the fresh manager
  is not running and its tick emits none.
\<close>

theorem tick_idle_counterexample:
  "\<not> running (state example_manager) \<and> Emit EvTick \<notin> set (effects (tick 2000 example_manager))"
  by (simp add: tick_def example_manager_simps)

section \<open>The long-break cadence\<close>

text \<open>
  Claim C9. When the tick completes a running pomodoro on a card, and this is the K-th
  completed pomodoro (K is \<^verbatim>\<open>pomodoroCount\<close> after the increment, at least 1), a break starts
  at once on the same card, and its duration is the long-break duration if K mod N = 0 and
  the short-break duration otherwise, where N is \<^verbatim>\<open>longBreakInterval\<close>. The two break
  durations are above 0, as every resolution of the settings leaves them
  (\<open>apply_durations\<close>).
\<close>

theorem long_break_cadence:
  assumes "running (state m)" and "mode (state m) = Pomodoro"
    and "now - st_start (state m) + elapsed (state m) \<ge> pomodoroDefault m"
    and "\<not> falsy (targetCardId (state m))"
    and "0 < shortBreakMs m" and "0 < longBreakMs m"
    and "K = pomodoroCount m + 1" and "1 \<le> K" and "N = longBreakInterval m"
  shows "pomodoroCount (tick now m) = K
     \<and> running (state (tick now m)) \<and> mode (state (tick now m)) = Break
     \<and> targetCardId (state (tick now m)) = targetCardId (state m)
     \<and> breakDurationMs (tick now m) = (if K mod N = 0 then longBreakMs m else shortBreakMs m)"
proof -
  let ?m1 = "emit EvTick m"
  have r1: "running (state ?m1)" "\<not> falsy (targetCardId (state ?m1))"
    using assms by (simp_all add: emit_def)
  have bd: "breakDurationMs (completePomodoro now ?m1) =
      (if K mod N = 0 then longBreakMs m else shortBreakMs m)"
    using completePomodoro_frame(3) [OF r1, of now] js_rem_zero_iff [OF \<open>1 \<le> K\<close>, of N] assms(7,9)
    by (simp add: emit_def)
  have pos: "0 < breakDurationMs (completePomodoro now ?m1)"
    using bd assms(5,6) by simp
  have t: "tick now m = completePomodoro now ?m1"
    using assms(1,2,3) pos completePomodoro_frame(1) [OF r1, of now]
    by (simp add: tick_def Let_def emit_def)
  show ?thesis
    using t bd completePomodoro_frame(1,2) [OF r1, of now] assms(7)
    by (simp add: emit_def)
qed

text \<open>
  The first pomodoro of the fresh manager (25 minutes, interval 4): a short break of 5 minutes
  follows.
\<close>

theorem long_break_cadence_witness:
  "running (state (start 1000 Pomodoro (Some ''A'') example_manager))
   \<and> mode (state (start 1000 Pomodoro (Some ''A'') example_manager)) = Pomodoro
   \<and> pomodoroDefault (start 1000 Pomodoro (Some ''A'') example_manager) \<le> 1501000 - 1000 + 0
   \<and> (1::int) \<le> 1
   \<and> pomodoroCount (tick 1501000 (start 1000 Pomodoro (Some ''A'') example_manager)) = 1
   \<and> running (state (tick 1501000 (start 1000 Pomodoro (Some ''A'') example_manager)))
   \<and> mode (state (tick 1501000 (start 1000 Pomodoro (Some ''A'') example_manager))) = Break
   \<and> breakDurationMs (tick 1501000 (start 1000 Pomodoro (Some ''A'') example_manager)) = 300000"
proof -
  let ?m1 = "start 1000 Pomodoro (Some ''A'') example_manager"
  have s1: "state ?m1 = \<lparr>running = True, mode = Pomodoro, st_start = 1000, elapsed = 0,
      targetCardId = Some ''A''\<rparr>" "pomodoroCount ?m1 = 0"
    by (simp_all add: start_idle falsy_simps example_manager_simps)
  have "pomodoroCount (tick 1501000 ?m1) = 1
     \<and> running (state (tick 1501000 ?m1)) \<and> mode (state (tick 1501000 ?m1)) = Break
     \<and> targetCardId (state (tick 1501000 ?m1)) = targetCardId (state ?m1)
     \<and> breakDurationMs (tick 1501000 ?m1) =
         (if (1::int) mod 4 = 0 then longBreakMs ?m1 else shortBreakMs ?m1)"
    by (rule long_break_cadence) (simp_all add: s1 start_example falsy_simps)
  then show ?thesis
    by (simp add: s1 start_example)
qed

section \<open>Evaluating the formatter and the grammar on concrete lines\<close>

lemma dec_small: "n < 10 \<Longrightarrow> dec n = [48 + n]"
  by (simp add: dec.simps)

lemma dec_large: "\<not> n < 10 \<Longrightarrow> dec n = dec (n div 10) @ [48 + n mod 10]"
  by (subst dec.simps) simp

lemmas civil_eval = civil_from_days_def civil_of_doe_def civil_of_doc_def civil_of_doq_def
  civil_of_doy_def

lemmas format_eval = format_line_def format_date_def format_hm_def civil_eval
  zeroFill_def dec_small dec_large asc_def msPerDay_def num_to_string_def round_minutes_def
  en_dash_def

lemmas match_eval = match_line_def marker_def bullet_def lit_def ws1_def ws0_def date_group_def
  time_group_def digitsN_def dash_def digits1_def isWs_def isDigit_def asc_def en_dash_def
  em_dash_def hyphen_def tomato_def stopwatch_sign_def trim_def

lemmas moment_eval = moment_parse_def asc_def digits_value_def daysInMonth_def
  days_from_civil_def msPerDay_def isLeapYear_def

lemma parse_line_25:
  "parse_line 0 cid ttl line_25 =
     Some \<lparr>cardId = Some cid, cardTitle = Some ttl, fs_mode = Stopwatch,
           fs_start = 1752141600000, fs_end = 1752143100000, duration = Num 1500000\<rparr>"
proof -
  have m: "match_line (trim line_25) = Some (asc ''2025-07-10'', asc ''10:00'', asc ''10:25'', asc ''25'')"
    by (simp add: line_25_def match_eval)
  have p: "moment_parse 0 (asc ''2025-07-10'') (asc ''10:00'') = Some 1752141600000"
    "moment_parse 0 (asc ''2025-07-10'') (asc ''10:25'') = Some 1752143100000"
    by (simp_all add: moment_eval)
  have i: "\<not> js_includes line_25 tomato"
    by (simp add: line_25_def asc_def en_dash_def tomato_def)
  have d: "digits_value (asc ''25'') = 25"
    by (simp add: digits_value_def asc_def)
  show ?thesis
    by (simp add: parse_line_def m p i d parseInt10_def js_times_def js_positive_def to_double_def)
qed


lemma parse_line_pomodoro:
  "parse_line 0 cid ttl line_pomodoro =
     Some \<lparr>cardId = Some cid, cardTitle = Some ttl, fs_mode = Pomodoro,
           fs_start = 1752145200000, fs_end = 1752147000000, duration = Num 1800000\<rparr>"
proof -
  have m: "match_line (trim line_pomodoro) = Some (asc ''2025-07-10'', asc ''11:00'', asc ''11:30'', asc ''30'')"
    by (simp add: line_pomodoro_def match_eval)
  have p: "moment_parse 0 (asc ''2025-07-10'') (asc ''11:00'') = Some 1752145200000"
    "moment_parse 0 (asc ''2025-07-10'') (asc ''11:30'') = Some 1752147000000"
    by (simp_all add: moment_eval)
  have i: "js_includes line_pomodoro tomato"
    by (simp add: line_pomodoro_def asc_def tomato_def)
  have d: "digits_value (asc ''30'') = 30"
    by (simp add: digits_value_def asc_def)
  show ?thesis
    by (simp add: parse_line_def m p i d parseInt10_def js_times_def js_positive_def to_double_def)
qed

lemma parse_line_other: "parse_line off cid ttl (asc ''call Bob'') = None"
  by (simp add: parse_line_def match_eval)

lemma split_lines_line: "10 \<notin> set a \<Longrightarrow> split_lines a = [a]"
  by (induction a) (auto split: list.splits)

lemma split_lines_nl: "10 \<notin> set a \<Longrightarrow> split_lines (a @ 10 # b) = a # split_lines b"
  by (induction a) (auto split: list.splits)

lemma example_lines_no_nl:
  "10 \<notin> set line_25" "10 \<notin> set line_pomodoro" "10 \<notin> set (asc ''Task A'')"
  "10 \<notin> set (asc ''call Bob'')"
  by (simp_all add: line_25_def line_pomodoro_def asc_def en_dash_def tomato_def)

section \<open>Reading the log back from the documents\<close>

lemma parse_line_fields:
  assumes "parse_line off cid ttl ln = Some fs"
  shows "cardId fs = Some cid"
    and "fs_mode fs = (if js_includes ln tomato then Pomodoro else Stopwatch)"
    and "fs_mode fs \<noteq> Break"
  using assms
  by (auto simp: parse_line_def Let_def split: option.splits prod.splits if_splits)

lemma push_line_cases:
  "push_line off cid ttl lgs ln = lgs
   \<or> (\<exists>fs. parse_line off cid ttl ln = Some fs
         \<and> \<not> list_ex (\<lambda>l. fs_start l = fs_start fs \<and> cardId l = Some cid) lgs
         \<and> push_line off cid ttl lgs ln = lgs @ [fs])"
  by (simp add: push_line_def split: option.splits)

lemma foldl_invariant:
  fixes I :: "'a \<Rightarrow> bool"
  assumes "\<And>acc x. I acc \<Longrightarrow> I (f acc x)" and "I acc"
  shows "I (foldl f acc xs)"
  using assms(2) by (induction xs arbitrary: acc) (simp_all add: assms(1))

lemma extract_invariant:
  fixes I :: "FocusSession list \<Rightarrow> bool"
  assumes step: "\<And>off cid ttl lgs ln. I lgs \<Longrightarrow> I (push_line off cid ttl lgs ln)"
  shows "I lgs \<Longrightarrow> I (extractItemLogs off it lgs)"
    and "I lgs \<Longrightarrow> I (extractItemLogsRecursive off its lgs)"
proof (induction off it lgs and off its lgs rule: extractItemLogs_extractItemLogsRecursive.induct)
  case (1 off cid raw ttl ch lgs)
  have "I (foldl (push_line off cid ttl) lgs (drop 1 (split_lines raw)))"
  proof (rule foldl_invariant [where I = I and f = "push_line off cid ttl"])
    show "I (push_line off cid ttl acc x)" if "I acc" for acc x
      using that by (rule step)
    show "I lgs" by fact
  qed
  then show ?case using 1 by simp
next
  case (2 off lgs)
  then show ?case by simp
next
  case (3 off it its lgs)
  then show ?case by simp
qed

lemma parse_invariant:
  fixes I :: "FocusSession list \<Rightarrow> bool"
  assumes step: "\<And>off cid ttl lgs ln. I lgs \<Longrightarrow> I (push_line off cid ttl lgs ln)"
    and init: "I lgs"
  shows "I (parseLogsFromMarkdown off sms lgs)"
  unfolding parseLogsFromMarkdown_def
proof (rule foldl_invariant [where I = I])
  fix acc :: "FocusSession list" and sm :: StateManager
  assume a: "I acc"
  show "I (foldl (\<lambda>acc2 lane. extractItemLogsRecursive off (lane_children lane) acc2)
                  acc (sm_state sm))"
  proof (rule foldl_invariant [where I = I])
    show "I (extractItemLogsRecursive off (lane_children lane) acc2)" if "I acc2" for acc2 lane
      using step that by (rule extract_invariant(2))
    show "I acc" by (rule a)
  qed
next
  show "I lgs" by (rule init)
qed


lemma parse_distinct:
  "distinct (map log_key (parseLogsFromMarkdown off sms []))"
proof (rule parse_invariant [where I = "\<lambda>lgs. distinct (map log_key lgs)"])
  fix off cid ttl ln and lgs :: "FocusSession list"
  assume d: "distinct (map log_key lgs)"
  from push_line_cases [of off cid ttl lgs ln]
  show "distinct (map log_key (push_line off cid ttl lgs ln))"
  proof
    assume "push_line off cid ttl lgs ln = lgs"
    with d show ?thesis by simp
  next
    assume "\<exists>fs. parse_line off cid ttl ln = Some fs
         \<and> \<not> list_ex (\<lambda>l. fs_start l = fs_start fs \<and> cardId l = Some cid) lgs
         \<and> push_line off cid ttl lgs ln = lgs @ [fs]"
    then obtain fs where p: "parse_line off cid ttl ln = Some fs"
      and n: "\<not> list_ex (\<lambda>l. fs_start l = fs_start fs \<and> cardId l = Some cid) lgs"
      and e: "push_line off cid ttl lgs ln = lgs @ [fs]"
      by blast
    have "log_key fs \<notin> set (map log_key lgs)"
      using n parse_line_fields(1) [OF p] by (auto simp: log_key_def list_ex_iff)
    with d e show ?thesis by simp
  qed
qed simp

lemma logged_boards_parse:
  "parseLogsFromMarkdown 0 logged_boards [] =
     [\<lparr>cardId = Some ''A'', cardTitle = Some (asc ''Task A''), fs_mode = Stopwatch,
       fs_start = 1752141600000, fs_end = 1752143100000, duration = Num 1500000\<rparr>,
      \<lparr>cardId = Some ''A'', cardTitle = Some (asc ''Task A''), fs_mode = Pomodoro,
       fs_start = 1752145200000, fs_end = 1752147000000, duration = Num 1800000\<rparr>]"
  by (simp add: parseLogsFromMarkdown_def logged_boards_def split_lines_nl split_lines_line
      example_lines_no_nl push_line_def parse_line_25 parse_line_pomodoro parse_line_other)

lemma forceReparseLogs_simps:
  "logs (forceReparseLogs m) = parseLogsFromMarkdown (utcOffset m) (stateManagers m) []"
  "markdownParsed (forceReparseLogs m)"
  "lastParsedSmCount (forceReparseLogs m) = length (stateManagers m)"
  "stateManagers (forceReparseLogs m) = stateManagers m"
  "utcOffset (forceReparseLogs m) = utcOffset m"
  by (simp_all add: forceReparseLogs_def ensureMarkdownLogs_def)

lemma run_op_current:
  assumes "markdownParsed m" and "lastParsedSmCount m = length (stateManagers m)"
    and "logs m = parseLogsFromMarkdown (utcOffset m) (stateManagers m) []"
  shows "run_op op m = m"
proof (cases op)
  case ForceReparse
  have "m\<lparr>markdownParsed := False, lastParsedSmCount := 0,
           logs := logs m, markdownParsed := True, lastParsedSmCount := lastParsedSmCount m\<rparr> = m"
    using assms(1) by simp
  then show ?thesis
    using ForceReparse assms by (simp add: forceReparseLogs_def ensureMarkdownLogs_def)
next
  case (TotalFocused c)
  then show ?thesis
    using assms by (simp add: getTotalFocused_def ensureMarkdownLogs_def Let_def)
next
  case (LogsForDate d)
  then show ?thesis
    using assms by (simp add: getLogsForDate_def ensureMarkdownLogs_def Let_def)
qed

lemma run_ops_current:
  assumes "markdownParsed m" and "lastParsedSmCount m = length (stateManagers m)"
    and "logs m = parseLogsFromMarkdown (utcOffset m) (stateManagers m) []"
  shows "run_ops ops m = m"
  unfolding run_ops_def
  by (induction ops) (simp_all add: run_op_current [OF assms])

lemma to_double_small: "\<bar>n\<bar> < 9007199254740992 \<Longrightarrow> to_double n = Num n"
  by (simp add: to_double_def)

lemma minutes_exact:
  assumes "\<bar>v * 60000\<bar> < 9007199254740992"
  shows "js_times (to_double v) 60000 = Num (v * 60000)"
proof -
  have "\<bar>v\<bar> \<le> \<bar>v * 60000\<bar>"
    by (simp add: abs_mult)
  with assms have "\<bar>v\<bar> < 9007199254740992"
    by simp
  then show ?thesis
    using assms by (simp add: to_double_small js_times_def)
qed

lemma bit_length_0: "bit_length 0 = 0"
  by (simp add: bit_length.simps)

lemma bit_length_pos: "0 < n \<Longrightarrow> bit_length n = Suc (bit_length (n div 2))"
  by (subst bit_length.simps) simp

text \<open>
  The minute count 9007199254740993 is 2 to the power 53 plus 1, which is no double:
  \<^verbatim>\<open>parseInt\<close> gives 2 to the power 53, and the duration is that times 60000.
\<close>

lemma minutes_rounded_example:
  "parseInt10 (asc ''9007199254740993'') = Num 9007199254740992"
  "js_times (parseInt10 (asc ''9007199254740993'')) 60000 = Num 540431955284459520000"
proof -
  have v: "digits_value (asc ''9007199254740993'') = 9007199254740993"
    by (simp add: digits_value_def asc_def)
  have b1: "bit_length 9007199254740993 = 54"
    by (simp add: bit_length_pos bit_length_0)
  show p: "parseInt10 (asc ''9007199254740993'') = Num 9007199254740992"
    by (simp add: parseInt10_def v to_double_def b1 round_at_def finite_or_inf_def)
  have b2: "bit_length 540431955284459520000 = 69"
    by (simp add: bit_length_pos bit_length_0)
  show "js_times (parseInt10 (asc ''9007199254740993'')) 60000 = Num 540431955284459520000"
    by (simp add: p js_times_def to_double_def b2 round_at_def finite_or_inf_def)
qed




text \<open>
  Claim C6. A forced reparse leaves the log that the documents determine; a second forced
  reparse, and any sequence of forced reparses and queries after it, leaves the manager as it
  is; and no two entries of the log share their start and card id.
\<close>

theorem reparse_idempotent:
  "logs (forceReparseLogs m) = parseLogsFromMarkdown (utcOffset m) (stateManagers m) []
   \<and> forceReparseLogs (forceReparseLogs m) = forceReparseLogs m
   \<and> run_ops ops (forceReparseLogs m) = forceReparseLogs m
   \<and> distinct (map log_key (logs (forceReparseLogs m)))"
proof -
  have c: "run_ops xs (forceReparseLogs m) = forceReparseLogs m" for xs
    by (rule run_ops_current) (simp_all add: forceReparseLogs_simps)
  from c [of "[ForceReparse]"] have "forceReparseLogs (forceReparseLogs m) = forceReparseLogs m"
    by (simp add: run_ops_def)
  then show ?thesis
    using c [of ops] by (simp add: forceReparseLogs_simps parse_distinct)
qed

text \<open>
  The theorem on the board \<open>logged_boards\<close>, whose card A carries the same log line twice:
  the log has it once.
\<close>

theorem reparse_idempotent_witness:
  "logs (forceReparseLogs (new_manager (\<lambda>k. None) logged_boards 0)) =
     [\<lparr>cardId = Some ''A'', cardTitle = Some (asc ''Task A''), fs_mode = Stopwatch,
       fs_start = 1752141600000, fs_end = 1752143100000, duration = Num 1500000\<rparr>,
      \<lparr>cardId = Some ''A'', cardTitle = Some (asc ''Task A''), fs_mode = Pomodoro,
       fs_start = 1752145200000, fs_end = 1752147000000, duration = Num 1800000\<rparr>]
   \<and> forceReparseLogs (forceReparseLogs (new_manager (\<lambda>k. None) logged_boards 0))
       = forceReparseLogs (new_manager (\<lambda>k. None) logged_boards 0)
   \<and> run_ops [TotalFocused (Some ''A''), ForceReparse, LogsForDate 1752141600000]
         (forceReparseLogs (new_manager (\<lambda>k. None) logged_boards 0))
       = forceReparseLogs (new_manager (\<lambda>k. None) logged_boards 0)
   \<and> distinct (map log_key (logs (forceReparseLogs (new_manager (\<lambda>k. None) logged_boards 0))))"
proof -
  let ?mz = "new_manager (\<lambda>k. None) logged_boards 0"
  have u: "utcOffset ?mz = 0" "stateManagers ?mz = logged_boards"
    by (simp_all add: new_manager_def updateSettings_def)
  note t = reparse_idempotent [of ?mz
      "[TotalFocused (Some ''A''), ForceReparse, LogsForDate 1752141600000]"]
  have a: "logs (forceReparseLogs ?mz) =
     [\<lparr>cardId = Some ''A'', cardTitle = Some (asc ''Task A''), fs_mode = Stopwatch,
       fs_start = 1752141600000, fs_end = 1752143100000, duration = Num 1500000\<rparr>,
      \<lparr>cardId = Some ''A'', cardTitle = Some (asc ''Task A''), fs_mode = Pomodoro,
       fs_start = 1752145200000, fs_end = 1752147000000, duration = Num 1800000\<rparr>]"
    using t by (simp add: u logged_boards_parse)
  from t a show ?thesis
    by blast
qed

section \<open>The shape of a written line\<close>

lemma dec_isDigit: "list_all isDigit (dec n)"
proof (induction n rule: dec.induct)
  case (1 n)
  show ?case
  proof (cases "n < 10")
    case True
    then show ?thesis by (simp add: dec_small isDigit_def)
  next
    case False
    have "n mod 10 < 10" by simp
    then have "isDigit (48 + n mod 10)" by (simp add: isDigit_def)
    with False 1 show ?thesis by (simp add: dec_large)
  qed
qed

lemma dec_nonempty: "dec n \<noteq> []"
  by (cases "n < 10") (simp_all add: dec_small dec_large)

lemma digits_value_snoc: "digits_value (xs @ [c]) = 10 * digits_value xs + (int c - 48)"
  by (simp add: digits_value_def)

lemma digits_value_dec: "digits_value (dec n) = int n"
proof (induction n rule: dec.induct)
  case (1 n)
  show ?case
  proof (cases "n < 10")
    case True
    then show ?thesis by (simp add: dec_small digits_value_def)
  next
    case False
    with 1 have "digits_value (dec (n div 10)) = int (n div 10)" by simp
    with False show ?thesis
      by (simp add: dec_large digits_value_snoc) presburger
  qed
qed

lemma length_dec: "n < 10 ^ k \<Longrightarrow> 0 < k \<Longrightarrow> length (dec n) \<le> k"
proof (induction n arbitrary: k rule: dec.induct)
  case (1 n)
  show ?case
  proof (cases "n < 10")
    case True
    with 1(3) show ?thesis by (simp add: dec_small)
  next
    case False
    from 1(3) obtain j where k: "k = Suc j" by (cases k) auto
    from False 1(2) k have "0 < j" by (cases j) auto
    moreover from 1(2) k have "n div 10 < 10 ^ j"
      by (simp add: less_mult_imp_div_less mult.commute)
    ultimately have "length (dec (n div 10)) \<le> j"
      using 1(1) False by simp
    with False k show ?thesis by (simp add: dec_large)
  qed
qed

lemma digits_value_zeros: "digits_value (replicate j 48 @ xs) = digits_value xs"
  by (induction j) (simp_all add: digits_value_def)

lemma zeroFill_shape:
  assumes "0 \<le> n" and "n < 10 ^ k" and "0 < k"
  shows "length (zeroFill n k) = k"
    and "list_all isDigit (zeroFill n k)"
    and "digits_value (zeroFill n k) = n"
proof -
  have "nat n < 10 ^ k"
    using assms(1,2) by (simp add: nat_less_iff)
  then have l: "length (dec (nat n)) \<le> k"
    using assms(3) by (rule length_dec)
  have z: "zeroFill n k = replicate (k - length (dec (nat n))) 48 @ dec (nat n)"
    using assms(1) by (simp add: zeroFill_def Let_def)
  show "length (zeroFill n k) = k"
    using l by (simp add: z)
  show "list_all isDigit (zeroFill n k)"
    by (simp add: z dec_isDigit list_all_iff isDigit_def) (use dec_isDigit [of "nat n"] in \<open>auto simp: list_all_iff isDigit_def\<close>)
  show "digits_value (zeroFill n k) = n"
    using assms(1) by (simp add: z digits_value_zeros digits_value_dec)
qed

lemma digit_not_ws: "isDigit c \<Longrightarrow> \<not> isWs c"
  by (auto simp: isDigit_def isWs_def)

lemma dropWhile_ws_digits:
  assumes "a \<noteq> []" and "list_all isDigit a"
  shows "dropWhile isWs (a @ r) = a @ r"
  using assms by (cases a) (simp_all add: digit_not_ws)

lemma digitsN_append:
  assumes "length a = n" and "list_all isDigit a"
  shows "digitsN n (a @ r) = Some (a, r)"
  using assms by (simp add: digitsN_def)

lemma lit_append: "lit p (p @ r) = Some r"
  by (simp add: lit_def)

lemma lit_cons: "lit [c] (c # r) = Some r"
  by (simp add: lit_def)

lemma takeWhile_digits:
  assumes "list_all isDigit a" and "\<not> isDigit c"
  shows "takeWhile isDigit (a @ c # r) = a" and "dropWhile isDigit (a @ c # r) = c # r"
  using assms by (induction a) simp_all

lemma asc_simps:
  "asc ''++ '' = [43, 43, 32]" "asc ''++'' = [43, 43]" "asc ''-'' = [45]" "asc '' '' = [32]"
  "asc '':'' = [58]" "asc '' ('' = [32, 40]" "asc '' m)'' = [32, 109, 41]" "asc ''('' = [40]"
  "asc ''m'' = [109]"
  by (simp_all add: asc_def)

lemma date_group_shape:
  assumes "length Y = 4" "list_all isDigit Y" "length M = 2" "list_all isDigit M"
    "length D = 2" "list_all isDigit D"
  shows "date_group (Y @ 45 # M @ 45 # D @ r) = Some (Y @ 45 # M @ 45 # D, r)"
  using assms by (simp add: date_group_def digitsN_append asc_simps lit_cons)

lemma time_group_shape:
  assumes "length H = 2" "list_all isDigit H" "length M = 2" "list_all isDigit M"
  shows "time_group (H @ 58 # M @ r) = Some (H @ 58 # M, r)"
  using assms by (simp add: time_group_def digitsN_append asc_simps lit_cons)

lemma match_line_shape:
  assumes Y: "length Y = 4" "list_all isDigit Y"
    and M: "length M = 2" "list_all isDigit M"
    and D: "length D = 2" "list_all isDigit D"
    and H1: "length H1 = 2" "list_all isDigit H1"
    and M1: "length M1 = 2" "list_all isDigit M1"
    and H2: "length H2 = 2" "list_all isDigit H2"
    and M2: "length M2 = 2" "list_all isDigit M2"
    and R: "R \<noteq> []" "list_all isDigit R"
  shows "match_line (43 # 43 # 32 # Y @ 45 # M @ 45 # D @ 32 # H1 @ 58 # M1 @ 32 # 8211 # 32
                      # H2 @ 58 # M2 @ 32 # 40 # R @ [32, 109, 41])
         = Some (Y @ 45 # M @ 45 # D, H1 @ 58 # M1, H2 @ 58 # M2, R)"
proof -
  have ne: "Y \<noteq> []" "H1 \<noteq> []" "H2 \<noteq> []"
    using Y(1) H1(1) H2(1) by auto
  have ws: "isWs 32" "\<not> isWs 8211" "\<not> isWs 40" "\<not> isWs 109" "\<not> isDigit 32"
    by (simp_all add: isWs_def isDigit_def)
  have s1: "marker (bullet (43 # 43 # 32 # x)) = Some (32 # x)" for x
    by (simp add: bullet_def marker_def lit_def asc_simps)
  have s2: "ws1 (32 # Y @ x) = Some (Y @ x)" for x
    by (simp add: ws1_def ws dropWhile_ws_digits [OF ne(1) Y(2)])
  have s4: "ws1 (32 # H1 @ x) = Some (H1 @ x)" for x
    by (simp add: ws1_def ws dropWhile_ws_digits [OF ne(2) H1(2)])
  have s6: "dash (ws0 (32 # 8211 # x)) = Some x" for x
    by (simp add: ws0_def dash_def ws en_dash_def)
  have s7: "ws0 (32 # H2 @ x) = H2 @ x" for x
    by (simp add: ws0_def ws dropWhile_ws_digits [OF ne(3) H2(2)])
  have s8: "ws1 (32 # 40 # x) = Some (40 # x)" for x
    by (simp add: ws1_def ws)
  have s10: "digits1 (R @ 32 # x) = Some (R, 32 # x)" for x
    using R by (simp add: digits1_def takeWhile_digits [OF R(2) ws(5)])
  have s11: "ws1 [32, 109, 41] = Some [109, 41]"
    by (simp add: ws1_def ws)
  show ?thesis
    unfolding match_line_def
    by (simp add: s1 s2 date_group_shape [OF Y M D] s4 time_group_shape [OF H1 M1] s6 s7
        time_group_shape [OF H2 M2] s8 lit_cons asc_simps s10 s11)
qed

lemma trim_id:
  assumes "s \<noteq> []" and "\<not> isWs (hd s)" and "\<not> isWs (last s)"
  shows "trim s = s"
proof -
  have a: "dropWhile isWs s = s"
    using assms(1,2) by (cases s) simp_all
  have "rev s \<noteq> []" "\<not> isWs (hd (rev s))"
    using assms(1,3) by (simp_all add: hd_rev)
  then have "dropWhile isWs (rev s) = rev s"
    by (cases "rev s") simp_all
  with a show ?thesis by (simp add: trim_def)
qed

lemma js_includes_hd: "js_includes s (a # p) \<Longrightarrow> a \<in> set s"
proof (induction s)
  case Nil
  then show ?case by simp
next
  case (Cons c cs)
  then show ?case by (cases "c = a") auto
qed

lemma dec_chars: "c \<in> set (dec n) \<Longrightarrow> c < 128"
  using dec_isDigit [of n] by (auto simp: list_all_iff isDigit_def)

lemma zeroFill_chars: "c \<in> set (zeroFill n k) \<Longrightarrow> c < 128"
  by (auto simp: zeroFill_def Let_def asc_simps split: if_splits dest: dec_chars)

lemma num_to_string_chars: "c \<in> set (num_to_string n) \<Longrightarrow> c < 128"
  by (auto simp: num_to_string_def asc_simps split: if_splits dest: dec_chars)

lemma format_date_chars: "c \<in> set (format_date off t) \<Longrightarrow> c < 128"
  by (auto simp: format_date_def asc_simps split: prod.splits dest: zeroFill_chars)

lemma format_hm_chars: "c \<in> set (format_hm off t) \<Longrightarrow> c < 128"
  by (auto simp: format_hm_def Let_def asc_simps dest: zeroFill_chars)

lemma format_line_chars: "c \<in> set (format_line off st en dur) \<Longrightarrow> c < 128 \<or> c = 8211"
  by (auto simp: format_line_def asc_simps en_dash_def
      dest: format_date_chars format_hm_chars num_to_string_chars)

lemma format_line_no_tomato: "\<not> js_includes (format_line off st en dur) tomato"
proof
  assume "js_includes (format_line off st en dur) tomato"
  then have "55356 \<in> set (format_line off st en dur)"
    unfolding tomato_def by (rule js_includes_hd)
  then show False
    by (auto dest: format_line_chars)
qed





section \<open>Writing a line and reading it back\<close>

subsection \<open>The calendar\<close>

text \<open>
  The day count splits into era, century, cycle of four years, year and day of the year; the
  year that starts on 1 March and the day of that year give the month and the day.
\<close>

lemma civil_of_doy_props:
  assumes "0 \<le> doy" and "doy \<le> 365" and "civil_of_doy y1 doy = (y, m, d)"
  shows "1 \<le> m" and "m \<le> 12" and "1 \<le> d"
    and "(if m \<le> 2 then y - 1 else y) = y1"
    and "(153 * (if m > 2 then m - 3 else m + 9) + 2) div 5 + d - 1 = doy"
    and "m \<noteq> 2 \<Longrightarrow> d \<le> 31 - (((m - 1) mod 7) mod 2)"
    and "m = 2 \<Longrightarrow> d \<le> 29"
    and "m = 2 \<Longrightarrow> doy \<le> 364 \<Longrightarrow> d \<le> 28"
    and "m \<le> 2 \<Longrightarrow> 306 \<le> doy"
proof -
  define mp where "mp = (5 * doy + 2) div 153"
  have b: "153 * mp \<le> 5 * doy + 2" "5 * doy + 2 < 153 * mp + 153"
    unfolding mp_def by arith+
  have r: "0 \<le> mp" "mp \<le> 11"
    using b assms(1,2) by arith+
  have c: "mp = 0 \<or> mp = 1 \<or> mp = 2 \<or> mp = 3 \<or> mp = 4 \<or> mp = 5 \<or> mp = 6 \<or> mp = 7
      \<or> mp = 8 \<or> mp = 9 \<or> mp = 10 \<or> mp = 11"
    using r by arith
  have e: "y = (if mp < 10 then y1 else y1 + 1)" "m = (if mp < 10 then mp + 3 else mp - 9)"
    "d = doy - (153 * mp + 2) div 5 + 1"
    using assms(3) unfolding civil_of_doy_def mp_def [symmetric] by (auto split: if_splits)
  show "1 \<le> m" "m \<le> 12"
    using e(2) r by (auto split: if_splits)
  show "1 \<le> d"
    using e(3) b by arith
  show "(if m \<le> 2 then y - 1 else y) = y1"
    using e(1,2) r by (auto split: if_splits)
  show "(153 * (if m > 2 then m - 3 else m + 9) + 2) div 5 + d - 1 = doy"
    using e(2,3) r by (auto split: if_splits)
  show "m \<noteq> 2 \<Longrightarrow> d \<le> 31 - (((m - 1) mod 7) mod 2)"
    using c e(2,3) b by (elim disjE) simp_all
  show "m = 2 \<Longrightarrow> d \<le> 29"
    using c e(2,3) b assms(2) by (elim disjE) simp_all
  show "m = 2 \<Longrightarrow> doy \<le> 364 \<Longrightarrow> d \<le> 28"
    using c e(2,3) b by (elim disjE) simp_all
  show "m \<le> 2 \<Longrightarrow> 306 \<le> doy"
    using c e(2) b by (elim disjE) simp_all
qed

lemma civil_from_days_decomp:
  assumes "civil_from_days z = (y, m, d)"
  obtains era c q yq doy where
    "z + 719468 = 146097 * era + 36524 * c + 1461 * q + 365 * yq + doy"
    and "0 \<le> c" and "c \<le> 3" and "0 \<le> q" and "q \<le> 24" and "0 \<le> yq" and "yq \<le> 3"
    and "0 \<le> doy" and "doy \<le> 365"
    and "doy = 365 \<longrightarrow> yq = 3" and "doy = 365 \<and> q = 24 \<longrightarrow> c = 3"
    and "civil_of_doy (400 * era + 100 * c + 4 * q + yq) doy = (y, m, d)"
proof -
  define era where "era = (z + 719468) div 146097"
  define doe where "doe = (z + 719468) mod 146097"
  define c where "c = min (doe div 36524) 3"
  define doc where "doc = doe - c * 36524"
  define q where "q = doc div 1461"
  define doq where "doq = doc mod 1461"
  define yq where "yq = min (doq div 365) 3"
  define doy where "doy = doq - yq * 365"
  have z: "z + 719468 = 146097 * era + doe" "0 \<le> doe" "doe < 146097"
    unfolding era_def doe_def by arith+
  have cr: "0 \<le> c" "c \<le> 3" "0 \<le> doc" "doc \<le> 36524" "doc = 36524 \<Longrightarrow> c = 3"
    unfolding c_def doc_def c_def using z(2,3) by arith+
  have qr: "doc = 1461 * q + doq" "0 \<le> q" "q \<le> 24" "0 \<le> doq" "doq \<le> 1460"
    unfolding q_def doq_def using cr(3,4) by arith+
  have yr: "0 \<le> yq" "yq \<le> 3" "0 \<le> doy" "doy \<le> 365" "doy = 365 \<longrightarrow> yq = 3"
    unfolding yq_def doy_def yq_def using qr(4,5) by arith+
  have t: "z + 719468 = 146097 * era + 36524 * c + 1461 * q + 365 * yq + doy"
    using z(1) qr(1) by (simp add: doc_def doy_def)
  have l: "doy = 365 \<and> q = 24 \<longrightarrow> c = 3"
  proof
    assume "doy = 365 \<and> q = 24"
    then have "doc = 36524"
      using qr(1) yr(5) by (simp add: doy_def)
    then show "c = 3" by (rule cr(5))
  qed
  have v: "civil_of_doy (400 * era + 100 * c + 4 * q + yq) doy = (y, m, d)"
    using assms
    unfolding civil_from_days_def civil_of_doe_def civil_of_doc_def civil_of_doq_def
      era_def [symmetric] doe_def [symmetric] c_def [symmetric] doc_def [symmetric]
    by (simp add: q_def [symmetric] doq_def [symmetric] yq_def [symmetric] doy_def [symmetric]
        doc_def [symmetric] algebra_simps)
  from t cr(1,2) qr(2,3) yr l v show thesis
    by (rule that)
qed

lemma int_div_mod_add:
  fixes k r n :: int
  assumes "0 \<le> r" and "r < n"
  shows "(n * k + r) mod n = r" and "(n * k + r) div n = k"
proof -
  have n: "n \<noteq> 0" using assms by auto
  show "(n * k + r) mod n = r"
    using assms by (simp add: mod_pos_pos_trivial)
  show "(n * k + r) div n = k"
    using assms n by (simp add: div_pos_pos_trivial)
qed

lemma year_of_era_split:
  fixes era c q yq :: int
  assumes "0 \<le> c" "c \<le> 3" "0 \<le> q" "q \<le> 24" "0 \<le> yq" "yq \<le> 3"
  shows "(400 * era + (100 * c + 4 * q + yq)) div 400 = era"
    and "(400 * era + (100 * c + 4 * q + yq)) mod 400 = 100 * c + 4 * q + yq"
proof -
  have b: "0 \<le> 100 * c + 4 * q + yq" "100 * c + 4 * q + yq < 400"
    using assms by simp_all
  show "(400 * era + (100 * c + 4 * q + yq)) div 400 = era"
    using b by (simp add: div_pos_pos_trivial)
  show "(400 * era + (100 * c + 4 * q + yq)) mod 400 = 100 * c + 4 * q + yq"
    using b by (simp add: mod_pos_pos_trivial)
qed

lemma year_of_era_div:
  fixes c q yq :: int
  assumes "0 \<le> c" "c \<le> 3" "0 \<le> q" "q \<le> 24" "0 \<le> yq" "yq \<le> 3"
  shows "(100 * c + 4 * q + yq) div 4 = 25 * c + q"
    and "(100 * c + 4 * q + yq) div 100 = c"
proof -
  have "100 * c + 4 * q + yq = 4 * (25 * c + q) + yq" by simp
  then have "(100 * c + 4 * q + yq) div 4 = (4 * (25 * c + q) + yq) div 4" by simp
  also have "\<dots> = 25 * c + q"
    using assms(5,6) by (simp add: div_pos_pos_trivial)
  finally show "(100 * c + 4 * q + yq) div 4 = 25 * c + q" .
  have b: "0 \<le> 4 * q + yq" "4 * q + yq < 100"
    using assms by simp_all
  have "(100 * c + 4 * q + yq) div 100 = (100 * c + (4 * q + yq)) div 100" by (simp add: add.assoc)
  also have "\<dots> = c"
    using b by (simp add: div_pos_pos_trivial)
  finally show "(100 * c + 4 * q + yq) div 100 = c" .
qed

lemma leap_after_full_cycle:
  fixes era c q :: int
  assumes "0 \<le> q" "q \<le> 23"
  shows "(400 * era + 100 * c + 4 * (q + 1)) mod 4 = 0"
    and "(400 * era + 100 * c + 4 * (q + 1)) mod 100 \<noteq> 0"
proof -
  have "400 * era + 100 * c + 4 * (q + 1) = 4 * (100 * era + 25 * c + q + 1)" by simp
  then show "(400 * era + 100 * c + 4 * (q + 1)) mod 4 = 0" by simp
  have e: "400 * era + 100 * c + 4 * (q + 1) = 100 * (4 * era + c) + (4 * q + 4)" by simp
  have "(100 * (4 * era + c) + (4 * q + 4)) mod 100 = 4 * q + 4"
    by (rule int_div_mod_add(1)) (use assms in simp_all)
  moreover have "4 * q + 4 \<noteq> 0" using assms(1) by simp
  ultimately have "(100 * (4 * era + c) + (4 * q + 4)) mod 100 \<noteq> 0"
    by (simp only: not_False_eq_True)
  then show "(400 * era + 100 * c + 4 * (q + 1)) mod 100 \<noteq> 0"
    unfolding e .
qed

text \<open>
  The date of a day count is a date of the calendar (the month from 1 to 12, the day within the
  month), and counting the days of that date gives the day count back.
\<close>

lemma civil_roundtrip:
  assumes "civil_from_days z = (y, m, d)"
  shows "days_from_civil y m d = z"
    and "1 \<le> m" and "m \<le> 12" and "1 \<le> d" and "d \<le> daysInMonth y (m - 1)"
proof -
  from assms obtain era c q yq doy where
    t: "z + 719468 = 146097 * era + 36524 * c + 1461 * q + 365 * yq + doy"
    and r: "0 \<le> c" "c \<le> 3" "0 \<le> q" "q \<le> 24" "0 \<le> yq" "yq \<le> 3"
    and dr: "0 \<le> doy" "doy \<le> 365"
    and l1: "doy = 365 \<longrightarrow> yq = 3" and l2: "doy = 365 \<and> q = 24 \<longrightarrow> c = 3"
    and v: "civil_of_doy (400 * era + 100 * c + 4 * q + yq) doy = (y, m, d)"
    by (rule civil_from_days_decomp)
  define y1 where "y1 = 400 * era + 100 * c + 4 * q + yq"
  note p = civil_of_doy_props [OF dr v [folded y1_def]]
  show "1 \<le> m" "m \<le> 12" "1 \<le> d"
    by (rule p)+
  have y1': "y1 = 400 * era + (100 * c + 4 * q + yq)"
    by (simp add: y1_def)
  have e: "y1 div 400 = era" "y1 mod 400 = 100 * c + 4 * q + yq"
    unfolding y1' by (rule year_of_era_split [OF r])+
  have f: "(100 * c + 4 * q + yq) div 4 = 25 * c + q" "(100 * c + 4 * q + yq) div 100 = c"
    by (rule year_of_era_div [OF r])+
  show "days_from_civil y m d = z"
    unfolding days_from_civil_def Let_def p(4) p(5) e f
    using t by simp
  show "d \<le> daysInMonth y (m - 1)"
  proof (cases "m = 2")
    case False
    then show ?thesis
      using p(6) by (simp add: daysInMonth_def)
  next
    case True
    show ?thesis
    proof (cases "doy = 365")
      case False
      then have "d \<le> 28"
        using p(8) [OF True] dr(2) by simp
      then show ?thesis
        using True by (simp add: daysInMonth_def)
    next
      case d365: True
      have yy: "y = y1 + 1"
        using p(4) True by simp
      have yq3: "yq = 3"
        using d365 l1 by simp
      have "isLeapYear y"
      proof (cases "q = 24")
        case True
        then have "c = 3" using d365 l2 by simp
        then have "y = 400 * (era + 1)"
          using True yq3 yy by (simp add: y1_def)
        then have "y mod 400 = 0" by simp
        then show ?thesis by (simp add: isLeapYear_def)
      next
        case False
        then have q23: "q \<le> 23" using r(4) by simp
        have y4: "y = 400 * era + 100 * c + 4 * (q + 1)"
          using yq3 yy by (simp add: y1_def)
        show ?thesis
          unfolding isLeapYear_def y4
          using leap_after_full_cycle [OF r(3) q23, of era c] by blast
      qed
      then show ?thesis
        using p(7) [OF True] True by (simp add: daysInMonth_def)
    qed
  qed
qed

text \<open>From 1970-01-01 to 9999-12-31 the year has at most four digits.\<close>

lemma civil_year_range:
  assumes "civil_from_days z = (y, m, d)" and "0 \<le> z" and "z < 2932897"
  shows "0 \<le> y" and "y \<le> 9999"
proof -
  from assms(1) obtain era c q yq doy where
    t: "z + 719468 = 146097 * era + 36524 * c + 1461 * q + 365 * yq + doy"
    and r: "0 \<le> c" "c \<le> 3" "0 \<le> q" "q \<le> 24" "0 \<le> yq" "yq \<le> 3"
    and dr: "0 \<le> doy" "doy \<le> 365"
    and l1: "doy = 365 \<longrightarrow> yq = 3" and l2: "doy = 365 \<and> q = 24 \<longrightarrow> c = 3"
    and v: "civil_of_doy (400 * era + 100 * c + 4 * q + yq) doy = (y, m, d)"
    by (rule civil_from_days_decomp)
  define y1 where "y1 = 400 * era + 100 * c + 4 * q + yq"
  define rest where "rest = 36524 * c + 1461 * q + 365 * yq + doy"
  define yoe where "yoe = 100 * c + 4 * q + yq"
  note p = civil_of_doy_props [OF dr v [folded y1_def]]
  have yy: "y = (if m \<le> 2 then y1 + 1 else y1)"
    using p(4) by (auto split: if_splits)
  have t': "z + 719468 = 146097 * era + rest"
    using t by (simp add: rest_def)
  have rb: "0 \<le> rest" "rest \<le> 146096"
    unfolding rest_def using r dr by simp_all
  have yb: "0 \<le> yoe" "yoe \<le> 399"
    unfolding yoe_def using r by simp_all
  have y1': "y1 = 400 * era + yoe"
    by (simp add: y1_def yoe_def)
  have "573372 \<le> 146097 * era"
    using t' rb(2) assms(2) by simp
  then have e0: "1 \<le> era" by simp
  have "146097 * era < 3652365"
    using t' rb(1) assms(3) by simp
  then have e1: "era \<le> 24" by simp
  show "0 \<le> y"
    using yy y1' e0 yb(1) by (simp split: if_splits)
  show "y \<le> 9999"
  proof (cases "m \<le> 2 \<and> era = 24 \<and> yoe = 399")
    case False
    then consider "\<not> m \<le> 2" | "era \<le> 23" | "yoe \<le> 398"
      using e1 yb(2) by fastforce
    then show ?thesis
    proof cases
      case 1
      then show ?thesis using yy y1' e1 yb(2) by simp
    next
      case 2
      then show ?thesis using yy y1' yb(2) by (simp split: if_splits)
    next
      case 3
      then show ?thesis using yy y1' e1 by (simp split: if_splits)
    qed
  next
    case True
    then have m2: "m \<le> 2" and e24: "era = 24" and y399: "yoe = 399" by simp_all
    have d306: "306 \<le> doy" using m2 by (rule p(9))
    have "100 * c + 4 * q + yq = 399" using y399 by (simp add: yoe_def)
    then have "c = 3 \<and> q = 24 \<and> yq = 3" using r by presburger
    then have "rest = 145731 + doy" by (simp add: rest_def)
    then have "z + 719468 \<ge> 3652365" using t' e24 d306 by simp
    then show ?thesis using assms(3) by simp
  qed
qed

subsection \<open>Hours and minutes\<close>

lemma hm_recombine:
  fixes ms :: int
  shows "ms div 3600000 * 3600000 + ms div 60000 mod 60 * 60000 = ms div 60000 * 60000"
proof -
  define k where "k = ms div 60000"
  have "ms div 3600000 = ms div (60000 * 60)" by simp
  also have "\<dots> = k div 60"
    unfolding k_def by (rule zdiv_zmult2_eq) simp
  finally have h: "ms div 3600000 = k div 60" .
  have g: "a * 3600000 + b * 60000 = (60 * a + b) * 60000" for a b :: int
    by simp
  have "k div 60 * 3600000 + k mod 60 * 60000 = (60 * (k div 60) + k mod 60) * 60000"
    by (rule g)
  also have "\<dots> = k * 60000"
    by (simp only: mult_div_mod_eq)
  finally have a: "k div 60 * 3600000 + k mod 60 * 60000 = k * 60000" .
  show ?thesis
    using a unfolding h k_def .
qed

lemma hm_bounds:
  fixes ms :: int
  assumes "0 \<le> ms" and "ms < 86400000"
  shows "0 \<le> ms div 3600000" and "ms div 3600000 \<le> 23"
    and "0 \<le> ms div 60000 mod 60" and "ms div 60000 mod 60 \<le> 59"
proof -
  show "0 \<le> ms div 3600000" using assms(1) by simp
  have "ms div 3600000 \<le> 86399999 div 3600000"
    by (rule zdiv_mono1) (use assms(2) in simp_all)
  then show "ms div 3600000 \<le> 23" by simp
  show "0 \<le> ms div 60000 mod 60" by simp
  have "ms div 60000 mod 60 < 60" by simp
  then show "ms div 60000 mod 60 \<le> 59" by simp
qed

lemma day_minute_recombine:
  fixes a :: int
  shows "a div 86400000 * 86400000 + a mod 86400000 div 60000 * 60000 = a div 60000 * 60000"
proof -
  define q where "q = a div 86400000"
  define r where "r = a mod 86400000"
  have a: "a = 60000 * (1440 * q) + r"
    unfolding q_def r_def by (simp add: algebra_simps)
  have "a div 60000 = (60000 * (1440 * q) + r) div 60000"
    by (simp only: a [symmetric])
  also have "\<dots> = 1440 * q + r div 60000"
    by (rule div_mult_self4) simp
  finally have "a div 60000 * 60000 = q * 86400000 + r div 60000 * 60000"
    by (simp add: algebra_simps)
  then show ?thesis
    unfolding q_def r_def by simp
qed

subsection \<open>The moment of a written date and time\<close>

lemma moment_parse_fields:
  assumes "length Y = 4" "length M = 2" "length H = 2"
    and "digits_value Y = y" "digits_value M = mo" "digits_value D = d"
    and "digits_value H = h" "digits_value Mi = mi"
    and "1 \<le> mo" "mo \<le> 12" "1 \<le> d" "d \<le> daysInMonth y (mo - 1)"
    and "0 \<le> h" "h \<le> 23" "0 \<le> mi" "mi \<le> 59"
  shows "moment_parse off (Y @ 45 # M @ 45 # D) (H @ 58 # Mi) =
           Some (days_from_civil y mo d * msPerDay + h * 3600000 + mi * 60000 - off)"
proof -
  have t: "take 4 (Y @ 45 # M @ 45 # D) = Y" "take 2 (drop 5 (Y @ 45 # M @ 45 # D)) = M"
    "drop 8 (Y @ 45 # M @ 45 # D) = D" "take 2 (H @ 58 # Mi) = H" "drop 3 (H @ 58 # Mi) = Mi"
    using assms(1-3) by simp_all
  show ?thesis
    unfolding moment_parse_def Let_def t assms(4-8)
    using assms(9-16) by simp
qed

lemma format_hm_shape:
  obtains H Mi where "format_hm off t = H @ 58 # Mi"
    and "length H = 2" and "list_all isDigit H" and "length Mi = 2" and "list_all isDigit Mi"
    and "digits_value H = (t + off) mod msPerDay div 3600000"
    and "digits_value Mi = (t + off) mod msPerDay div 60000 mod 60"
proof -
  define ms where "ms = (t + off) mod msPerDay"
  have b: "0 \<le> ms" "ms < 86400000"
    unfolding ms_def msPerDay_def by simp_all
  note hb = hm_bounds [OF b]
  have h: "0 \<le> ms div 3600000" "ms div 3600000 < 10 ^ 2" "(0::nat) < 2"
    using hb(1,2) by simp_all
  have m: "0 \<le> ms div 60000 mod 60" "ms div 60000 mod 60 < 10 ^ 2" "(0::nat) < 2"
    using hb(3,4) by simp_all
  have f: "format_hm off t = zeroFill (ms div 3600000) 2 @ 58 # zeroFill (ms div 60000 mod 60) 2"
    by (simp add: format_hm_def Let_def ms_def asc_simps)
  note zh = zeroFill_shape [OF h] and zm = zeroFill_shape [OF m]
  show thesis
    using f zh(1,2) zm(1,2) zh(3) zm(3)
    by (rule that [folded ms_def])
qed

lemma format_date_shape:
  assumes "0 \<le> t + off" and "t + off < 253402300800000"
  obtains Y M D y m d where "format_date off t = Y @ 45 # M @ 45 # D"
    and "length Y = 4" and "list_all isDigit Y" and "length M = 2" and "list_all isDigit M"
    and "length D = 2" and "list_all isDigit D"
    and "digits_value Y = y" and "digits_value M = m" and "digits_value D = d"
    and "1 \<le> m" and "m \<le> 12" and "1 \<le> d" and "d \<le> daysInMonth y (m - 1)"
    and "days_from_civil y m d = (t + off) div msPerDay"
proof -
  define z where "z = (t + off) div msPerDay"
  obtain y m d where c: "civil_from_days z = (y, m, d)"
    by (cases "civil_from_days z") auto
  have "z \<le> 253402300799999 div 86400000"
    unfolding z_def msPerDay_def by (rule zdiv_mono1) (use assms(2) in simp_all)
  then have z1: "z < 2932897" by simp
  have z0: "0 \<le> z"
    unfolding z_def msPerDay_def using assms(1) by simp
  note zb = z0 z1
  note rt = civil_roundtrip [OF c]
  note yr = civil_year_range [OF c zb]
  have dm: "daysInMonth y (m - 1) \<le> 31"
    by (simp add: daysInMonth_def)
  have yb: "0 \<le> y" "y < 10 ^ 4" "(0::nat) < 4"
    using yr by simp_all
  have mb: "0 \<le> m" "m < 10 ^ 2" "(0::nat) < 2"
    using rt(2,3) by simp_all
  have db: "0 \<le> d" "d < 10 ^ 2" "(0::nat) < 2"
    using rt(4,5) dm by simp_all
  have f: "format_date off t = zeroFill y 4 @ 45 # zeroFill m 2 @ 45 # zeroFill d 2"
    by (simp add: format_date_def z_def [symmetric] c asc_simps)
  note zy = zeroFill_shape [OF yb] and zm = zeroFill_shape [OF mb] and zd = zeroFill_shape [OF db]
  show thesis
    using f zy(1,2) zm(1,2) zd(1,2) zy(3) zm(3) zd(3) rt(2-5) rt(1)
    by (rule that [folded z_def])
qed

text \<open>
  Reading the date written for \<open>st\<close> with the time written for \<open>t\<close>: the local day of \<open>st\<close>
  and the time of day of \<open>t\<close>, cut to the minute.
\<close>

lemma moment_parse_format:
  assumes "0 \<le> st + off" and "st + off < 253402300800000"
  shows "moment_parse off (format_date off st) (format_hm off t) =
           Some ((st + off) div msPerDay * msPerDay + (t + off) mod msPerDay div 60000 * 60000
                 - off)"
proof -
  obtain Y M D y m d where fd: "format_date off st = Y @ 45 # M @ 45 # D"
    and s: "length Y = 4" "list_all isDigit Y" "length M = 2" "list_all isDigit M"
      "length D = 2" "list_all isDigit D"
    and v: "digits_value Y = y" "digits_value M = m" "digits_value D = d"
    and r: "1 \<le> m" "m \<le> 12" "1 \<le> d" "d \<le> daysInMonth y (m - 1)"
    and z: "days_from_civil y m d = (st + off) div msPerDay"
    by (rule format_date_shape [OF assms])
  obtain H Mi where fh: "format_hm off t = H @ 58 # Mi"
    and sh: "length H = 2" "list_all isDigit H" "length Mi = 2" "list_all isDigit Mi"
    and vh: "digits_value H = (t + off) mod msPerDay div 3600000"
      "digits_value Mi = (t + off) mod msPerDay div 60000 mod 60"
    by (rule format_hm_shape)
  have b: "0 \<le> (t + off) mod msPerDay" "(t + off) mod msPerDay < 86400000"
    by (simp_all add: msPerDay_def)
  note hb = hm_bounds [OF b]
  have "moment_parse off (Y @ 45 # M @ 45 # D) (H @ 58 # Mi) =
      Some (days_from_civil y m d * msPerDay + (t + off) mod msPerDay div 3600000 * 3600000
            + (t + off) mod msPerDay div 60000 mod 60 * 60000 - off)"
    using s(1,3) sh(1) v vh r hb by (rule moment_parse_fields)
  also have "\<dots> = Some ((st + off) div msPerDay * msPerDay
      + (t + off) mod msPerDay div 60000 * 60000 - off)"
    using hm_recombine [of "(t + off) mod msPerDay"] by (simp add: z)
  finally show ?thesis
    by (simp only: fd fh)
qed

subsection \<open>The written line against the grammar\<close>

lemma round_minutes_bounds:
  assumes "0 \<le> dur"
  shows "0 \<le> round_minutes dur" and "round_minutes dur * 60000 \<le> dur + 30000"
    and "dur < 30000 \<longleftrightarrow> round_minutes dur = 0"
proof -
  show "0 \<le> round_minutes dur"
    using assms by (simp add: round_minutes_def)
  have "round_minutes dur * 60000 = (dur + 30000) - (dur + 30000) mod 60000"
    by (simp add: round_minutes_def minus_mod_eq_div_mult)
  moreover have "0 \<le> (dur + 30000) mod 60000" by simp
  ultimately show "round_minutes dur * 60000 \<le> dur + 30000" by linarith
  show "dur < 30000 \<longleftrightarrow> round_minutes dur = 0"
  proof
    assume "dur < 30000"
    then show "round_minutes dur = 0"
      using assms by (simp add: round_minutes_def div_pos_pos_trivial)
  next
    assume "round_minutes dur = 0"
    then have "(dur + 30000) div 60000 = 0" by (simp add: round_minutes_def)
    then have "dur + 30000 < 60000"
      using assms by (simp add: div_eq_0_iff)
    then show "dur < 30000" by simp
  qed
qed

lemma round_minutes_near:
  "dur - 30000 < round_minutes dur * 60000" "round_minutes dur * 60000 \<le> dur + 30000"
proof -
  have e: "round_minutes dur * 60000 = (dur + 30000) - (dur + 30000) mod 60000"
    by (simp add: round_minutes_def minus_mod_eq_div_mult)
  have "0 \<le> (dur + 30000) mod 60000" "(dur + 30000) mod 60000 < 60000"
    by simp_all
  then show "dur - 30000 < round_minutes dur * 60000" "round_minutes dur * 60000 \<le> dur + 30000"
    unfolding e by linarith+
qed

lemma minute_floor_fixed:
  fixes a :: int
  shows "a div 60000 * 60000 = a \<longleftrightarrow> a mod 60000 = 0"
proof -
  have "a div 60000 * 60000 = a - a mod 60000"
    by (simp add: minus_mod_eq_div_mult)
  then show ?thesis by simp
qed

lemma format_line_shape:
  assumes "0 \<le> st + off" and "st + off < 253402300800000" and "0 \<le> dur"
  shows "match_line (trim (format_line off st en dur)) =
           Some (format_date off st, format_hm off st, format_hm off en,
                 dec (nat (round_minutes dur)))"
proof -
  obtain Y M D y m d where fd: "format_date off st = Y @ 45 # M @ 45 # D"
    and Y: "length Y = 4" "list_all isDigit Y" and M: "length M = 2" "list_all isDigit M"
    and D: "length D = 2" "list_all isDigit D"
    by (rule format_date_shape [OF assms(1,2)])
  obtain H1 M1 where f1: "format_hm off st = H1 @ 58 # M1"
    and H1: "length H1 = 2" "list_all isDigit H1" and M1: "length M1 = 2" "list_all isDigit M1"
    by (rule format_hm_shape)
  obtain H2 M2 where f2: "format_hm off en = H2 @ 58 # M2"
    and H2: "length H2 = 2" "list_all isDigit H2" and M2: "length M2 = 2" "list_all isDigit M2"
    by (rule format_hm_shape)
  define R where "R = dec (nat (round_minutes dur))"
  have R: "R \<noteq> []" "list_all isDigit R"
    by (simp_all add: R_def dec_nonempty dec_isDigit)
  have ns: "num_to_string (round_minutes dur) = R"
    using round_minutes_bounds(1) [OF assms(3)] by (simp add: num_to_string_def R_def)
  have fl: "format_line off st en dur =
      43 # 43 # 32 # Y @ 45 # M @ 45 # D @ 32 # H1 @ 58 # M1 @ 32 # 8211 # 32
        # H2 @ 58 # M2 @ 32 # 40 # R @ [32, 109, 41]"
    by (simp add: format_line_def fd f1 f2 ns asc_simps en_dash_def)
  have w: "\<not> isWs 43" "\<not> isWs 41"
    by (simp_all add: isWs_def)
  have tr: "trim (format_line off st en dur) = format_line off st en dur"
    by (rule trim_id) (simp_all add: fl w)
  show ?thesis
    unfolding tr unfolding fl fd f1 f2 R_def [symmetric]
    by (rule match_line_shape [OF Y M D H1 M1 H2 M2 R])
qed

lemma parse_format_line:
  assumes "0 \<le> st + off" and "st + off < 253402300800000"
    and "0 \<le> dur" and "dur < 9007199254710992"
  shows "parse_line off cid ttl (format_line off st en dur) =
     (if 30000 \<le> dur
         \<and> (st + off) div 60000 * 60000
             < (st + off) div msPerDay * msPerDay + (en + off) mod msPerDay div 60000 * 60000
      then Some \<lparr>cardId = Some cid, cardTitle = Some ttl, fs_mode = Stopwatch,
                 fs_start = (st + off) div 60000 * 60000 - off,
                 fs_end = (st + off) div msPerDay * msPerDay
                          + (en + off) mod msPerDay div 60000 * 60000 - off,
                 duration = Num (round_minutes dur * 60000)\<rparr>
      else None)"
proof -
  define n where "n = round_minutes dur"
  note nb = round_minutes_bounds [OF assms(3), folded n_def]
  have n1: "\<bar>n * 60000\<bar> < 9007199254740992"
    using nb(1,2) assms(4) by simp
  have dv: "digits_value (dec (nat n)) = n"
    using nb(1) by (simp add: digits_value_dec)
  have du: "js_times (parseInt10 (dec (nat n))) 60000 = Num (n * 60000)"
    unfolding parseInt10_def dv by (rule minutes_exact [OF n1])
  have pos: "0 < n * 60000 \<longleftrightarrow> 30000 \<le> dur"
    using nb(1,3) by auto
  have ps: "moment_parse off (format_date off st) (format_hm off st) =
      Some ((st + off) div 60000 * 60000 - off)"
    using moment_parse_format [OF assms(1,2), of st]
      day_minute_recombine [of "st + off"] by (simp add: msPerDay_def)
  note pe = moment_parse_format [OF assms(1,2), of en]
  note ml = format_line_shape [OF assms(1-3), of en, folded n_def]
  note nt = format_line_no_tomato [of off st en dur]
  show ?thesis
    unfolding parse_line_def ml
    by (simp add: ps pe du js_positive_def pos nt n_def [symmetric])
qed

lemma format_line_midnight:
  "format_line 0 1752191940000 1752192060000 120000 =
     asc ''++ 2025-07-10 23:59 '' @ [en_dash] @ asc '' 00:01 (2 m)''"
  by (simp add: format_eval)

lemma format_line_seconds:
  "format_line 0 1752141601000 1752143100000 1499000 = line_25"
  by (simp add: format_eval line_25_def)

text \<open>
  Claim C5, as the code has it. Take a session that starts from 1970 on and before the year
  10000 in local time, with a duration from 0 to below 2 to the power 53 less 30000 ms. The
  line written for it is read back as a session exactly when the duration is at least 30000
  ms (the minute count written is \<^verbatim>\<open>Math.round(duration / 60000)\<close>, and a count of 0 is
  refused) and the end time written, taken on the local day of the start, is in a later
  minute than the start. The session read back then has the start cut to the minute, as its
  end the local day of the start with the time of day of the end cut to the minute, the
  written minute count times 60000 as its duration, and the mode stopwatch. When start and
  end are on the same local day that end is the end cut to the minute. The start is the same
  only when it is on a whole minute of local time, and the duration differs from the
  original by at most 30000 ms.
\<close>

theorem format_parse_roundtrip:
  assumes "0 \<le> st + off" and "st + off < 253402300800000"
    and "0 \<le> dur" and "dur < 9007199254710992"
  shows "parse_line off cid ttl (format_line off st en dur) =
     (if 30000 \<le> dur
         \<and> (st + off) div 60000 * 60000
             < (st + off) div msPerDay * msPerDay + (en + off) mod msPerDay div 60000 * 60000
      then Some \<lparr>cardId = Some cid, cardTitle = Some ttl, fs_mode = Stopwatch,
                 fs_start = (st + off) div 60000 * 60000 - off,
                 fs_end = (st + off) div msPerDay * msPerDay
                          + (en + off) mod msPerDay div 60000 * 60000 - off,
                 duration = Num (round_minutes dur * 60000)\<rparr>
      else None)
   \<and> ((en + off) div msPerDay = (st + off) div msPerDay \<longrightarrow>
        (st + off) div msPerDay * msPerDay + (en + off) mod msPerDay div 60000 * 60000
          = (en + off) div 60000 * 60000)
   \<and> ((st + off) div 60000 * 60000 - off = st \<longleftrightarrow> (st + off) mod 60000 = 0)
   \<and> dur - 30000 < round_minutes dur * 60000 \<and> round_minutes dur * 60000 \<le> dur + 30000"
proof -
  have a: "(en + off) div msPerDay = (st + off) div msPerDay \<longrightarrow>
        (st + off) div msPerDay * msPerDay + (en + off) mod msPerDay div 60000 * 60000
          = (en + off) div 60000 * 60000"
    using day_minute_recombine [of "en + off"] by (simp add: msPerDay_def)
  have b: "(st + off) div 60000 * 60000 - off = st \<longleftrightarrow> (st + off) mod 60000 = 0"
    using minute_floor_fixed [of "st + off"] by auto
  show ?thesis
    using parse_format_line [OF assms, of cid ttl en] a b round_minutes_near [of dur]
    by (simp only: simp_thms)
qed

text \<open>
  The theorem for a session from 12:00:01 to 12:25:00 local time, two hours ahead of UTC, of
  1499000 ms: it is read back from 12:00 to 12:25 with 25 minutes.
\<close>

theorem format_parse_roundtrip_witness:
  "(0::int) \<le> 1752141601000 + 7200000 \<and> (1752141601000::int) + 7200000 < 253402300800000
   \<and> (0::int) \<le> 1499000 \<and> (1499000::int) < 9007199254710992
   \<and> (1752143100000 + 7200000) div msPerDay = (1752141601000 + 7200000) div msPerDay
   \<and> parse_line 7200000 ''A'' (asc ''Task A'')
        (format_line 7200000 1752141601000 1752143100000 1499000) =
       Some \<lparr>cardId = Some ''A'', cardTitle = Some (asc ''Task A''), fs_mode = Stopwatch,
             fs_start = 1752141600000, fs_end = 1752143100000, duration = Num 1500000\<rparr>"
  using format_parse_roundtrip [of 1752141601000 7200000 1499000 "''A''" "asc ''Task A''"
      1752143100000]
  by (simp add: msPerDay_def round_minutes_def)

text \<open>
  Claim C5 as stated has the same start and end after the round trip, for every session with
  start before end. The session from 10:00:01 to 10:25:00 is written as the line \<open>line_25\<close>
  and read back with the start 10:00:00, one second before the original. The session from
  23:59 to 00:01 of the next day, of two minutes, is written with the date of its start and
  the end time 00:01; read back, the end is before the start and the line gives no session.
\<close>

theorem roundtrip_not_exact_counterexample:
  "(1752141601000::int) < 1752143100000
   \<and> format_line 0 1752141601000 1752143100000 1499000 = line_25
   \<and> parse_line 0 ''A'' (asc ''Task A'') line_25 =
       Some \<lparr>cardId = Some ''A'', cardTitle = Some (asc ''Task A''), fs_mode = Stopwatch,
             fs_start = 1752141600000, fs_end = 1752143100000, duration = Num 1500000\<rparr>
   \<and> (1752141600000::int) \<noteq> 1752141601000
   \<and> (1752191940000::int) < 1752192060000
   \<and> format_line 0 1752191940000 1752192060000 120000 =
       asc ''++ 2025-07-10 23:59 '' @ [en_dash] @ asc '' 00:01 (2 m)''
   \<and> parse_line 0 ''A'' (asc ''Task A'') (format_line 0 1752191940000 1752192060000 120000) = None"
proof -
  have n: "parse_line 0 ''A'' (asc ''Task A'') (format_line 0 1752191940000 1752192060000 120000)
      = None"
    using parse_format_line [of 1752191940000 0 120000 "''A''" "asc ''Task A''" 1752192060000]
    by (simp add: msPerDay_def)
  show ?thesis
    using n by (simp add: format_line_seconds format_line_midnight parse_line_25)
qed

end
